theory Spec2Isabelle
  imports Complex_Main "HOL-Library.Multiset"
begin

section \<open>The Island of the programs database (island.ts)\<close>

text \<open>
  The class \<^verbatim>\<open>Island\<close> of \<^verbatim>\<open>programs-database/island.ts\<close> keeps clusters of
  programs in a JavaScript \<^verbatim>\<open>Map\<close> and assembles prompts from them. Three things of the
  language decide what the class does, and the embedding writes each of them out:
  \<^item> arrays and objects are references: a \<^verbatim>\<open>Map\<close> compares object keys by identity, and an
    assignment to a field of an object is seen through every reference to it. Objects
    live in a heap, a reference is an address;
  \<^item> numbers are IEEE doubles: the model keeps \<^verbatim>\<open>NaN\<close> and the two infinities apart from
    the finite values, and the result of an addition, a multiplication or a division of
    finite values is rounded to the nearest double, ties to even, with overflow to an
    infinity (only the sign of zero is left out);
  \<^item> a property assignment on \<^verbatim>\<open>undefined\<close> throws a \<^verbatim>\<open>TypeError\<close>, while an array read
    out of range only yields \<^verbatim>\<open>undefined\<close>.
\<close>

subsection \<open>Numbers\<close>

datatype number = Num real | PInf | NInf | NaN

definition signed_inf :: "bool \<Rightarrow> number" where
  "signed_inf positive = (if positive then PInf else NInf)"

text \<open>
  Rounding to the nearest double. A positive real \<open>x\<close> with \<open>2\<^sup>e \<le> x < 2\<^sup>e\<^sup>+\<^sup>1\<close> lies between
  doubles that are multiples of \<open>2\<^sup>e\<^sup>-\<^sup>5\<^sup>2\<close>, or of \<open>2\<^sup>-\<^sup>1\<^sup>0\<^sup>7\<^sup>4\<close> in the subnormal range; it
  is rounded to the nearest such multiple, and to the one with an even significand when
  it is halfway. A negative real is rounded as its magnitude is. A result of magnitude
  \<open>2\<^sup>1\<^sup>0\<^sup>2\<^sup>4\<close> or more is an infinity.
\<close>

definition round_half_even :: "real \<Rightarrow> int" where
  "round_half_even r =
     (let f = \<lfloor>r\<rfloor>; d = r - of_int f
      in if d < 1 / 2 then f else if 1 / 2 < d then f + 1 else if even f then f else f + 1)"

definition least_exponent :: int where
  "least_exponent = - 1074"

definition quantum :: "real \<Rightarrow> int" where
  "quantum x = max (\<lfloor>log 2 x\<rfloor> - 52) least_exponent"

definition round_magnitude :: "real \<Rightarrow> real" where
  "round_magnitude x =
     (if x = 0 then 0
      else of_int (round_half_even (x / 2 powi quantum x)) * 2 powi quantum x)"

definition round_double :: "real \<Rightarrow> real" where
  "round_double x = (if x < 0 then - round_magnitude (- x) else round_magnitude x)"

definition fl :: "real \<Rightarrow> number" where
  "fl x =
     (let r = round_double x
      in if 2 ^ 1024 \<le> \<bar>r\<bar> then signed_inf (0 < x) else Num r)"

text \<open>
  The finite values of the language are the doubles: the reals that the rounding leaves
  as they are and that are below \<open>2\<^sup>1\<^sup>0\<^sup>2\<^sup>4\<close> in magnitude.
\<close>

definition double :: "real \<Rightarrow> bool" where
  "double x = (round_double x = x \<and> \<bar>x\<bar> < 2 ^ 1024)"

fun is_double :: "number \<Rightarrow> bool" where
  "is_double (Num a) = double a"
| "is_double _ = True"

fun finite_double :: "number \<Rightarrow> bool" where
  "finite_double (Num a) = double a"
| "finite_double _ = False"

fun js_neg :: "number \<Rightarrow> number" where
  "js_neg (Num a) = Num (- a)"
| "js_neg PInf = NInf"
| "js_neg NInf = PInf"
| "js_neg NaN = NaN"

fun js_add :: "number \<Rightarrow> number \<Rightarrow> number" where
  "js_add NaN _ = NaN"
| "js_add _ NaN = NaN"
| "js_add (Num a) (Num b) = fl (a + b)"
| "js_add PInf NInf = NaN"
| "js_add NInf PInf = NaN"
| "js_add PInf _ = PInf"
| "js_add _ PInf = PInf"
| "js_add NInf _ = NInf"
| "js_add _ NInf = NInf"

definition js_sub :: "number \<Rightarrow> number \<Rightarrow> number" where
  "js_sub a b = js_add a (js_neg b)"

fun js_mul :: "number \<Rightarrow> number \<Rightarrow> number" where
  "js_mul NaN _ = NaN"
| "js_mul _ NaN = NaN"
| "js_mul (Num a) (Num b) = fl (a * b)"
| "js_mul (Num a) PInf = (if a = 0 then NaN else signed_inf (0 < a))"
| "js_mul (Num a) NInf = (if a = 0 then NaN else signed_inf (a < 0))"
| "js_mul PInf (Num b) = (if b = 0 then NaN else signed_inf (0 < b))"
| "js_mul NInf (Num b) = (if b = 0 then NaN else signed_inf (b < 0))"
| "js_mul PInf PInf = PInf"
| "js_mul NInf NInf = PInf"
| "js_mul PInf NInf = NInf"
| "js_mul NInf PInf = NInf"

text \<open>Division; a zero divisor is taken as \<^verbatim>\<open>+0\<close>.\<close>

fun js_div :: "number \<Rightarrow> number \<Rightarrow> number" where
  "js_div NaN _ = NaN"
| "js_div _ NaN = NaN"
| "js_div (Num a) (Num b) =
     (if b = 0 then (if a = 0 then NaN else signed_inf (0 < a)) else fl (a / b))"
| "js_div (Num a) PInf = Num 0"
| "js_div (Num a) NInf = Num 0"
| "js_div PInf (Num b) = signed_inf (0 \<le> b)"
| "js_div NInf (Num b) = signed_inf (b < 0)"
| "js_div PInf PInf = NaN"
| "js_div PInf NInf = NaN"
| "js_div NInf PInf = NaN"
| "js_div NInf NInf = NaN"

text \<open>
  Truncation towards zero, as the remainder operator \<^verbatim>\<open>%\<close> uses it. The remainder of
  two doubles is a double: it is not rounded.
\<close>

definition trunc :: "real \<Rightarrow> int" where
  "trunc r = (if 0 \<le> r then \<lfloor>r\<rfloor> else \<lceil>r\<rceil>)"

fun js_rem :: "number \<Rightarrow> number \<Rightarrow> number" where
  "js_rem (Num a) (Num b) =
     (if b = 0 then NaN else Num (a - b * of_int (trunc (a / b))))"
| "js_rem (Num a) PInf = Num a"
| "js_rem (Num a) NInf = Num a"
| "js_rem _ _ = NaN"

text \<open>\<^verbatim>\<open>Math.min\<close> of two numbers.\<close>

fun Math_min :: "number \<Rightarrow> number \<Rightarrow> number" where
  "Math_min NaN _ = NaN"
| "Math_min _ NaN = NaN"
| "Math_min NInf _ = NInf"
| "Math_min _ NInf = NInf"
| "Math_min PInf b = b"
| "Math_min a PInf = a"
| "Math_min (Num a) (Num b) = Num (min a b)"

text \<open>
  The length of the array-like \<^verbatim>\<open>{ length: x }\<close> that \<^verbatim>\<open>Array.from\<close> reads: \<^verbatim>\<open>NaN\<close> and
  negative values give 0 and a fraction is cut off. The language caps the result at
  \<open>2\<^sup>5\<^sup>3 - 1\<close>; a finite argument here is at most the length of an array, which is far
  below, so the cap is written out for the infinite value only.
\<close>

fun ToLength :: "number \<Rightarrow> nat" where
  "ToLength (Num a) = (if a \<le> 0 then 0 else nat (trunc a))"
| "ToLength PInf = 2 ^ 53 - 1"
| "ToLength NInf = 0"
| "ToLength NaN = 0"

text \<open>The sign of a sort comparator's result.\<close>

fun is_positive :: "number \<Rightarrow> bool" where
  "is_positive (Num a) = (0 < a)"
| "is_positive PInf = True"
| "is_positive NInf = False"
| "is_positive NaN = False"

fun is_negative :: "number \<Rightarrow> bool" where
  "is_negative (Num a) = (a < 0)"
| "is_negative NInf = True"
| "is_negative PInf = False"
| "is_negative NaN = False"

fun is_zero :: "number \<Rightarrow> bool" where
  "is_zero (Num a) = (a = 0)"
| "is_zero _ = False"

text \<open>The operand test of \<^verbatim>\<open>x || 0\<close> on a number: zero and \<^verbatim>\<open>NaN\<close> are falsy.\<close>

fun truthy :: "number \<Rightarrow> bool" where
  "truthy (Num a) = (a \<noteq> 0)"
| "truthy NaN = False"
| "truthy _ = True"

text \<open>The order of the numbers other than \<^verbatim>\<open>NaN\<close>.\<close>

fun num_le :: "number \<Rightarrow> number \<Rightarrow> bool" where
  "num_le NaN _ = False"
| "num_le _ NaN = False"
| "num_le NInf _ = True"
| "num_le _ PInf = True"
| "num_le (Num a) (Num b) = (a \<le> b)"
| "num_le _ _ = False"

subsection \<open>Strings of numbers and versioned names\<close>

text \<open>The decimal digits of an index, as the template literal prints it.\<close>

definition digit :: "nat \<Rightarrow> char" where
  "digit d = ''0123456789'' ! d"

fun decimal :: "nat \<Rightarrow> string" where
  "decimal n = (if n < 10 then [digit n] else decimal (n div 10) @ [digit (n mod 10)])"

declare decimal.simps [simp del]

text \<open>\<^verbatim>\<open>getVersionedName(name, version)\<close>: the template literal \<^verbatim>\<open>`${name}_v${version}`\<close>.
  Every call of the class passes an array index or an array length.\<close>

definition getVersionedName :: "string \<Rightarrow> nat \<Rightarrow> string" where
  "getVersionedName nm version = nm @ ''_v'' @ decimal version"

subsection \<open>Objects and the heap\<close>

type_synonym ref = nat

text \<open>
  The function representation (\<^verbatim>\<open>code-manipulation/function.ts\<close>) is used through its
  three mutable fields; a program is its preface and its list of functions.
\<close>

record Function =
  name :: string
  body :: string
  docString :: string

record Program =
  preface :: string
  Program_functions :: "ref list"

text \<open>
  Modelled from the spec: the class \<^verbatim>\<open>Cluster\<close> (\<^verbatim>\<open>cluster.ts\<close>) is not among the
  sources. A cluster has a score, fixed at creation, and an ordered, non-empty collection
  of members.
\<close>

record Cluster =
  score :: number
  programs :: "ref list"

text \<open>
  Modelled from the spec: the constructor of \<^verbatim>\<open>Cluster\<close> is not among the sources.
  \<^verbatim>\<open>new Cluster(score, program)\<close> has the given score and the program as its sole member.
\<close>

definition new_Cluster :: "number \<Rightarrow> ref \<Rightarrow> Cluster" where
  "new_Cluster s program = \<lparr>score = s, programs = [program]\<rparr>"

text \<open>
  Modelled from the spec: \<^verbatim>\<open>Cluster.registerProgram\<close> is not among the sources. It
  appends the program to the members and does not alter the score.
\<close>

definition Cluster_registerProgram :: "Cluster \<Rightarrow> ref \<Rightarrow> Cluster" where
  "Cluster_registerProgram c program = c\<lparr>programs := programs c @ [program]\<rparr>"

text \<open>
  Modelled from the spec: \<^verbatim>\<open>Cluster.sampleProgram\<close> is not among the sources. It picks
  one of the current members at random; \<open>u\<close> is the random draw.
\<close>

definition Cluster_sampleProgram :: "nat \<Rightarrow> Cluster \<Rightarrow> ref" where
  "Cluster_sampleProgram u c = programs c ! (u mod length (programs c))"

text \<open>
  The heap: arrays of numbers (signatures), function objects and program objects, each
  kind in its own list; the address of an object is its position, and a new object goes to
  the end.
\<close>

record heap =
  arrays :: "number list list"
  funcs :: "Function list"
  progs :: "Program list"

subsection \<open>The Map of clusters\<close>

text \<open>
  A \<^verbatim>\<open>Map<Signature, Cluster>\<close> in insertion order. A signature is an array, so the key is
  its address: \<^verbatim>\<open>has\<close>, \<^verbatim>\<open>get\<close> and \<^verbatim>\<open>set\<close> compare addresses, never contents.
\<close>

type_synonym cluster_map = "(ref \<times> Cluster) list"

definition Map_has :: "cluster_map \<Rightarrow> ref \<Rightarrow> bool" where
  "Map_has m k = (k \<in> set (map fst m))"

definition Map_get :: "cluster_map \<Rightarrow> ref \<Rightarrow> Cluster option" where
  "Map_get m k = map_of m k"

fun Map_set :: "cluster_map \<Rightarrow> ref \<Rightarrow> Cluster \<Rightarrow> cluster_map" where
  "Map_set [] k v = [(k, v)]"
| "Map_set ((k', v') # m) k v =
     (if k' = k then (k, v) # m else (k', v') # Map_set m k v)"

definition Map_keys :: "cluster_map \<Rightarrow> ref list" where
  "Map_keys m = map fst m"

subsection \<open>The collaborators that are not part of island.ts\<close>

text \<open>
  A score mapping is the list of its entries in the order in which \<^verbatim>\<open>Object.values\<close>
  goes through them.
\<close>

type_synonym ScoresPerTest = "(string \<times> number) list"

text \<open>
  \<^verbatim>\<open>math.ts\<close> (\<^verbatim>\<open>reduceScore\<close>, \<^verbatim>\<open>softmax\<close>, \<^verbatim>\<open>getRandomWeightedIndex\<close>), the rendering
  of functions and programs (\<^verbatim>\<open>toString\<close>) and the call-renaming utility are parameters
  of the model. The two random functions take the position of the call in the sequence
  of draws; \<^verbatim>\<open>randomMember\<close> is the draw that \<^verbatim>\<open>sampleProgram\<close> makes. A result of
  \<^verbatim>\<open>getRandomWeightedIndex\<close> that is no index of the list reads as any number beyond its
  end. A program is rendered from its preface and the functions it refers to.

  The last parameter belongs to the engine, not to the repository: \<^verbatim>\<open>sortOrder\<close> is the
  order in which its \<^verbatim>\<open>Array.prototype.sort\<close> leaves an array of numbers when the
  comparator is not consistent, which the language leaves to the implementation.
\<close>

record ext =
  reduceScore :: "ScoresPerTest \<Rightarrow> number"
  softmax :: "number list \<Rightarrow> number \<Rightarrow> number list"
  getRandomWeightedIndex :: "nat \<Rightarrow> number list \<Rightarrow> nat"
  randomMember :: "nat \<Rightarrow> nat"
  Function_toString :: "Function \<Rightarrow> string"
  renameFunctionCalls :: "string \<Rightarrow> string \<Rightarrow> string \<Rightarrow> Function"
  Program_toString :: "string \<Rightarrow> Function list \<Rightarrow> string"
  sortOrder :: "(nat \<Rightarrow> nat \<Rightarrow> number) \<Rightarrow> nat list \<Rightarrow> nat list"

subsection \<open>The Island\<close>

text \<open>
  What a call can end with instead of a result: the \<^verbatim>\<open>TypeError\<close> that the language
  raises, or an error that the program throws with a message of its own. The class has
  no \<^verbatim>\<open>throw\<close> statement.
\<close>

datatype error = RuntimeTypeError | Thrown string

record Island =
  template :: ref
  nameOffunctionToEvolve :: string
  functionsPerPrompt :: number
  clusterSamplingTemperatureInit :: number
  clusterSamplingTemperaturePeriod :: number
  clusters :: cluster_map
  numPrograms :: number

text \<open>
  The constructor only stores its parameters; the last two default to an empty map and
  to 0. Nothing is checked and nothing is thrown.
\<close>

definition new_Island ::
  "ref \<Rightarrow> string \<Rightarrow> number \<Rightarrow> number \<Rightarrow> number \<Rightarrow> cluster_map option \<Rightarrow> number option
     \<Rightarrow> error + Island" where
  "new_Island tmpl nm fpp t0 period cl np =
     Inr \<lparr>template = tmpl, nameOffunctionToEvolve = nm, functionsPerPrompt = fpp,
          clusterSamplingTemperatureInit = t0, clusterSamplingTemperaturePeriod = period,
          clusters = (case cl of None \<Rightarrow> [] | Some m \<Rightarrow> m),
          numPrograms = (case np of None \<Rightarrow> Num 0 | Some n \<Rightarrow> n)\<rparr>"

text \<open>
  \<^verbatim>\<open>getSignature\<close>: \<^verbatim>\<open>Object.values\<close> builds an array of the scores in the mapping's
  order, \<^verbatim>\<open>map\<close> builds a second one from it, which is returned. \<^verbatim>\<open>Number\<close> of a number
  is the number.
\<close>

definition Number :: "number \<Rightarrow> number" where
  "Number v = v"

definition getSignature :: "ScoresPerTest \<Rightarrow> heap \<Rightarrow> ref \<times> heap" where
  "getSignature scoresPerTest h =
     (let testValues = map snd scoresPerTest;
          h1 = h\<lparr>arrays := arrays h @ [testValues]\<rparr>;
          h2 = h1\<lparr>arrays := arrays h1 @ [map Number testValues]\<rparr>
      in (length (arrays h1), h2))"

text \<open>
  The getter \<^verbatim>\<open>temperature\<close> is arithmetic on numbers, which yields a number for every
  operand and never throws: the result is always on the right.
\<close>

definition temperature :: "Island \<Rightarrow> error + number" where
  "temperature island =
     (let period = clusterSamplingTemperaturePeriod island
      in Inr (js_mul (clusterSamplingTemperatureInit island)
                (js_sub (Num 1) (js_div (js_rem (numPrograms island) period) period))))"

text \<open>
  The getters \<^verbatim>\<open>signatures\<close>, \<^verbatim>\<open>scores\<close> (with \<^verbatim>\<open>?.score || 0\<close>: a missing cluster and a
  falsy score give 0) and \<^verbatim>\<open>probabilities\<close>.
\<close>

definition signatures :: "Island \<Rightarrow> ref list" where
  "signatures island = Map_keys (clusters island)"

definition scores :: "Island \<Rightarrow> number list" where
  "scores island =
     map (\<lambda>signature.
            case Map_get (clusters island) signature of
              None \<Rightarrow> Num 0
            | Some c \<Rightarrow> (if truthy (score c) then score c else Num 0))
         (signatures island)"

definition probabilities :: "ext \<Rightarrow> Island \<Rightarrow> error + number list" where
  "probabilities e island =
     (case temperature island of
        Inl err \<Rightarrow> Inl err
      | Inr t \<Rightarrow> Inr (softmax e (scores island) t))"

text \<open>
  \<^verbatim>\<open>registerProgram\<close>: the program is a reference to a function object. In the second
  branch the cluster found is changed in place, which keeps its position in the map.
\<close>

definition registerProgram ::
  "ext \<Rightarrow> ref \<Rightarrow> ScoresPerTest \<Rightarrow> heap \<times> Island \<Rightarrow> heap \<times> Island" where
  "registerProgram e program scoresPerTest st =
     (let (h, island) = st;
          (signature, h') = getSignature scoresPerTest h;
          cl = (if \<not> Map_has (clusters island) signature
                then Map_set (clusters island) signature
                       (new_Cluster (reduceScore e scoresPerTest) program)
                else (case Map_get (clusters island) signature of
                        None \<Rightarrow> clusters island
                      | Some c \<Rightarrow>
                          Map_set (clusters island) signature
                            (Cluster_registerProgram c program)))
      in (h', island\<lparr>clusters := cl, numPrograms := js_add (numPrograms island) (Num 1)\<rparr>))"

text \<open>A sequence of registrations, in order.\<close>

fun registerPrograms ::
  "ext \<Rightarrow> (ref \<times> ScoresPerTest) list \<Rightarrow> heap \<times> Island \<Rightarrow> heap \<times> Island" where
  "registerPrograms e [] st = st"
| "registerPrograms e ((program, scoresPerTest) # calls) st =
     registerPrograms e calls (registerProgram e program scoresPerTest st)"

subsection \<open>Sorting\<close>

text \<open>
  \<^verbatim>\<open>Array.prototype.sort\<close> with a comparator. The language defines when a comparator is
  consistent on the elements of the array: its result is never \<^verbatim>\<open>NaN\<close>, every element
  compares equal to itself, and "equal", "less" and "greater" are symmetric, respectively
  opposite, and transitive.
\<close>

definition consistent_comparator :: "('a \<Rightarrow> 'a \<Rightarrow> number) \<Rightarrow> 'a list \<Rightarrow> bool" where
  "consistent_comparator cmp xs =
     (\<forall>a \<in> set xs. \<forall>b \<in> set xs. \<forall>c \<in> set xs.
        cmp a b \<noteq> NaN \<and>
        is_zero (cmp a a) \<and>
        (is_zero (cmp a b) \<longrightarrow> is_zero (cmp b a)) \<and>
        (is_zero (cmp a b) \<and> is_zero (cmp b c) \<longrightarrow> is_zero (cmp a c)) \<and>
        (is_negative (cmp a b) \<longrightarrow> is_positive (cmp b a)) \<and>
        (is_negative (cmp a b) \<and> is_negative (cmp b c) \<longrightarrow> is_negative (cmp a c)) \<and>
        (is_positive (cmp a b) \<longrightarrow> is_negative (cmp b a)) \<and>
        (is_positive (cmp a b) \<and> is_positive (cmp b c) \<longrightarrow> is_positive (cmp a c)))"

text \<open>
  With a consistent comparator the sort is stable and its result is therefore unique: an
  element stands behind another only when the comparator's result for the two is above
  zero, and elements that compare equal keep their order. The model computes that
  result by insertion from the right end.
\<close>

fun insert_sorted :: "('a \<Rightarrow> 'a \<Rightarrow> number) \<Rightarrow> 'a \<Rightarrow> 'a list \<Rightarrow> 'a list" where
  "insert_sorted cmp x [] = [x]"
| "insert_sorted cmp x (y # ys) =
     (if is_positive (cmp x y) then y # insert_sorted cmp x ys else x # y # ys)"

definition stable_sort :: "('a \<Rightarrow> 'a \<Rightarrow> number) \<Rightarrow> 'a list \<Rightarrow> 'a list" where
  "stable_sort cmp xs = foldr (insert_sorted cmp) xs []"

text \<open>
  With any other comparator the order is the engine's. The array still holds the same
  elements: an order that is no permutation of them is not a result of \<^verbatim>\<open>sort\<close>, and
  the model then leaves the array as it is.
\<close>

definition Array_sort :: "ext \<Rightarrow> (nat \<Rightarrow> nat \<Rightarrow> number) \<Rightarrow> nat list \<Rightarrow> nat list" where
  "Array_sort e cmp xs =
     (if consistent_comparator cmp xs then stable_sort cmp xs
      else (let ys = sortOrder e cmp xs in if mset ys = mset xs then ys else xs))"

subsection \<open>Prompt generation\<close>

definition improvedDocString :: "string \<Rightarrow> nat \<Rightarrow> string" where
  "improvedDocString baseName version =
     ''Improved version of '' @ getVersionedName baseName version @ ''.''"

text \<open>
  The \<^verbatim>\<open>forEach\<close> of \<^verbatim>\<open>generatePrompt\<close>, from index \<open>i\<close> on. The name and the docstring
  are assigned on the object the list refers to; \<^verbatim>\<open>renameFunctionCalls\<close> is given the
  rendered text and returns a new object, which is what is pushed.
\<close>

fun versionFunctions ::
  "ext \<Rightarrow> string \<Rightarrow> ref list \<Rightarrow> nat \<Rightarrow> Function list \<times> ref list
     \<Rightarrow> Function list \<times> ref list" where
  "versionFunctions e baseName [] i st = st"
| "versionFunctions e baseName (impl # rest) i (fs, versionedFunctions) =
     (let fs1 = fs[impl := (fs ! impl)\<lparr>name := getVersionedName baseName i\<rparr>];
          fs2 = (if 0 < i
                 then fs1[impl := (fs1 ! impl)\<lparr>docString := improvedDocString baseName (i - 1)\<rparr>]
                 else fs1);
          renamed = renameFunctionCalls e (Function_toString e (fs2 ! impl)) baseName
                      (name (fs2 ! impl))
      in versionFunctions e baseName rest (Suc i)
           (fs2 @ [renamed], versionedFunctions @ [length fs2]))"

definition renderProgram :: "ext \<Rightarrow> heap \<Rightarrow> ref \<Rightarrow> string" where
  "renderProgram e h p =
     Program_toString e (preface (progs h ! p))
       (map (\<lambda>r. funcs h ! r) (Program_functions (progs h ! p)))"

text \<open>
  \<^verbatim>\<open>generatePrompt\<close>. The header is \<^verbatim>\<open>implementations[implementations.length - 1]\<close>: for
  an empty list that read yields \<^verbatim>\<open>undefined\<close>, and the assignment to its \<^verbatim>\<open>name\<close>
  throws the \<^verbatim>\<open>TypeError\<close>.
\<close>

definition generatePrompt ::
  "ext \<Rightarrow> ref list \<Rightarrow> heap \<times> Island \<Rightarrow> error + (string \<times> heap)" where
  "generatePrompt e implementations st =
     (let (h, island) = st;
          baseName = nameOffunctionToEvolve island;
          (fs, versionedFunctions) =
             versionFunctions e baseName implementations 0 (funcs h, [])
      in if implementations = [] then Inl RuntimeTypeError
         else
           let header = implementations ! (length implementations - 1);
               nextVersion = length implementations;
               fs1 = fs[header := (fs ! header)\<lparr>name := getVersionedName baseName nextVersion\<rparr>];
               fs2 = fs1[header := (fs1 ! header)\<lparr>body := []\<rparr>];
               fs3 = fs2[header := (fs2 ! header)
                         \<lparr>docString := improvedDocString baseName (nextVersion - 1)\<rparr>];
               versionedFunctions' = versionedFunctions @ [header];
               newTemplate = template island;
               ps = (progs h)[newTemplate :=
                       (progs h ! newTemplate)\<lparr>Program_functions := versionedFunctions'\<rparr>];
               h' = h\<lparr>funcs := fs3, progs := ps\<rparr>
           in Inr (renderProgram e h' newTemplate, h'))"

text \<open>
  The loop of \<^verbatim>\<open>getPrompt\<close> over the chosen signatures; a signature is \<^verbatim>\<open>undefined\<close>
  (\<open>None\<close>) when the drawn index is not an index of \<^verbatim>\<open>signatures\<close>, and then no cluster
  is found and nothing is pushed. \<open>j\<close> counts the calls of \<^verbatim>\<open>sampleProgram\<close>.
\<close>

fun collectSamples ::
  "ext \<Rightarrow> cluster_map \<Rightarrow> nat \<Rightarrow> ref option list \<Rightarrow> ref list \<times> number list" where
  "collectSamples e cl j [] = ([], [])"
| "collectSamples e cl j (signature # rest) =
     (case (case signature of None \<Rightarrow> None | Some s \<Rightarrow> Map_get cl s) of
        None \<Rightarrow> collectSamples e cl j rest
      | Some cluster \<Rightarrow>
          (let program = Cluster_sampleProgram (randomMember e j) cluster;
               (implementations, scs) = collectSamples e cl (Suc j) rest
           in (program # implementations, score cluster # scs)))"

text \<open>
  The steps of \<^verbatim>\<open>getPrompt\<close>: the number of draws (its local \<^verbatim>\<open>functionsPerPrompt\<close>, the
  length that \<^verbatim>\<open>Array.from\<close> reads), the signatures chosen by the draws, the indices of
  the collected pairs sorted by score, and the implementations in that order.
\<close>

definition functionsPerPromptNow :: "Island \<Rightarrow> nat" where
  "functionsPerPromptNow island =
     ToLength (Math_min (Num (real (length (signatures island)))) (functionsPerPrompt island))"

definition chosenSignatures :: "ext \<Rightarrow> Island \<Rightarrow> number list \<Rightarrow> ref option list" where
  "chosenSignatures e island probs =
     (let sigs = signatures island;
          indices = map (\<lambda>i. getRandomWeightedIndex e i probs)
                      [0 ..< functionsPerPromptNow island]
      in map (\<lambda>index. if index < length sigs then Some (sigs ! index) else None) indices)"

definition indicesSortedByScore :: "ext \<Rightarrow> number list \<Rightarrow> nat list" where
  "indicesSortedByScore e scs =
     Array_sort e (\<lambda>a b. js_sub (scs ! a) (scs ! b)) [0 ..< length scs]"

definition sortedImplementations :: "ext \<Rightarrow> ref list \<Rightarrow> number list \<Rightarrow> ref list" where
  "sortedImplementations e implementations scs =
     map (\<lambda>i. implementations ! i) (indicesSortedByScore e scs)"

text \<open>
  \<^verbatim>\<open>getPrompt\<close> returns the prompt and the version number; the heap is returned with
  them, since \<^verbatim>\<open>generatePrompt\<close> changes it.
\<close>

definition getPrompt :: "ext \<Rightarrow> heap \<times> Island \<Rightarrow> error + ((string \<times> nat) \<times> heap)" where
  "getPrompt e st =
     (let (h, island) = st
      in case probabilities e island of
           Inl err \<Rightarrow> Inl err
         | Inr probs \<Rightarrow>
             (let (implementations, scs) =
                    collectSamples e (clusters island) 0 (chosenSignatures e island probs);
                  sorted = sortedImplementations e implementations scs;
                  versionGenerated = length sorted + 1
              in case generatePrompt e sorted (h, island) of
                   Inl err \<Rightarrow> Inl err
                 | Inr (txt, h') \<Rightarrow> Inr ((txt, versionGenerated), h')))"

subsection \<open>Well-formed states\<close>

text \<open>
  A reference always points to a live object. For the model this is a condition on the
  state: every key of the map is the address of an allocated array, every implementation
  and the template are addresses of allocated objects.
\<close>

definition keys_allocated :: "heap \<Rightarrow> Island \<Rightarrow> bool" where
  "keys_allocated h island =
     (\<forall>k \<in> set (Map_keys (clusters island)). k < length (arrays h))"

definition functions_allocated :: "heap \<Rightarrow> ref list \<Rightarrow> bool" where
  "functions_allocated h implementations =
     (\<forall>r \<in> set implementations. r < length (funcs h))"

text \<open>
  What the prompt generation needs of the two absent text utilities: rendering a function
  and reading it back, with the calls of another name renamed, recovers the function's
  name and docstring.
\<close>

definition keeps_name_and_docString :: "ext \<Rightarrow> bool" where
  "keeps_name_and_docString e =
     (\<forall>f old new. old \<noteq> name f \<longrightarrow>
        name (renameFunctionCalls e (Function_toString e f) old new) = name f \<and>
        docString (renameFunctionCalls e (Function_toString e f) old new) = docString f)"

subsection \<open>A concrete environment for runs on concrete inputs\<close>

text \<open>
  Score reduction by the arithmetic mean, uniform weights, draws that go round the
  indices, and a rendering of a function as three delimited fields that the renaming
  utility reads back (the bodies used hold no call to rename).
\<close>

text \<open>
  The engine of the concrete environment sorts as V8 sorts an array of fewer than 64
  elements: the result of the comparator counts as \<^verbatim>\<open>+0\<close> when it is \<^verbatim>\<open>NaN\<close>; the run
  at the start of the array is counted, and reversed when it descends; every element
  behind the run is then put into the sorted part at the place that a binary search
  finds.
\<close>

definition v8_order :: "(nat \<Rightarrow> nat \<Rightarrow> number) \<Rightarrow> nat \<Rightarrow> nat \<Rightarrow> number" where
  "v8_order cmp a b = (case cmp a b of NaN \<Rightarrow> Num 0 | v \<Rightarrow> v)"

fun v8_run_tail :: "(nat \<Rightarrow> nat \<Rightarrow> number) \<Rightarrow> bool \<Rightarrow> nat \<Rightarrow> nat list \<Rightarrow> nat" where
  "v8_run_tail cmp descending previous [] = 0"
| "v8_run_tail cmp descending previous (current # rest) =
     (let below = is_negative (v8_order cmp current previous)
      in if (if descending then \<not> below else below) then 0
         else Suc (v8_run_tail cmp descending current rest))"

definition v8_count_and_make_run :: "(nat \<Rightarrow> nat \<Rightarrow> number) \<Rightarrow> nat list \<Rightarrow> nat \<times> nat list" where
  "v8_count_and_make_run cmp xs =
     (case xs of
        [] \<Rightarrow> (0, [])
      | [x] \<Rightarrow> (1, [x])
      | x0 # x1 # rest \<Rightarrow>
          (let descending = is_negative (v8_order cmp x1 x0);
               n = 2 + v8_run_tail cmp descending x1 rest
           in (n, if descending then rev (take n xs) @ drop n xs else xs)))"

function v8_search ::
  "(nat \<Rightarrow> nat \<Rightarrow> number) \<Rightarrow> nat \<Rightarrow> nat list \<Rightarrow> nat \<Rightarrow> nat \<Rightarrow> nat" where
  "v8_search cmp pivot work left right =
     (if left < right
      then (let mid = left + (right - left) div 2
            in if is_negative (v8_order cmp pivot (work ! mid))
               then v8_search cmp pivot work left mid
               else v8_search cmp pivot work (mid + 1) right)
      else left)"
  by pat_completeness auto
termination
  by (relation "measure (\<lambda>(cmp, pivot, work, left, right). right - left)") auto

declare v8_search.simps [simp del]

fun v8_binary_insertion :: "(nat \<Rightarrow> nat \<Rightarrow> number) \<Rightarrow> nat list \<Rightarrow> nat list \<Rightarrow> nat list" where
  "v8_binary_insertion cmp placed [] = placed"
| "v8_binary_insertion cmp placed (pivot # rest) =
     (let left = v8_search cmp pivot placed 0 (length placed)
      in v8_binary_insertion cmp (take left placed @ pivot # drop left placed) rest)"

definition v8_sort :: "(nat \<Rightarrow> nat \<Rightarrow> number) \<Rightarrow> nat list \<Rightarrow> nat list" where
  "v8_sort cmp xs =
     (let (n, work) = v8_count_and_make_run cmp xs
      in v8_binary_insertion cmp (take n work) (drop n work))"

fun delimit :: "string \<Rightarrow> string" where
  "delimit [] = '';''"
| "delimit (c # cs) = CHR ''.'' # c # delimit cs"

fun undelimit :: "string \<Rightarrow> string \<times> string" where
  "undelimit (x # c # r) =
     (if x = CHR ''.'' then (let (s, rest) = undelimit r in (c # s, rest)) else ([], c # r))"
| "undelimit _ = ([], [])"

definition demo_toString :: "Function \<Rightarrow> string" where
  "demo_toString f = delimit (name f) @ delimit (docString f) @ delimit (body f)"

definition demo_rename :: "string \<Rightarrow> string \<Rightarrow> string \<Rightarrow> Function" where
  "demo_rename txt old new =
     (let (n, r1) = undelimit txt; (d, r2) = undelimit r1; (b, r3) = undelimit r2
      in \<lparr>name = n, body = b, docString = d\<rparr>)"

definition demo_ext :: ext where
  "demo_ext =
     \<lparr>reduceScore = (\<lambda>s. js_div (foldl js_add (Num 0) (map snd s)) (Num (real (length s)))),
      softmax = (\<lambda>xs t. map (\<lambda>_. js_div (Num 1) (Num (real (length xs)))) xs),
      getRandomWeightedIndex = (\<lambda>i ps. i mod length ps),
      randomMember = (\<lambda>j. j),
      Function_toString = demo_toString,
      renameFunctionCalls = demo_rename,
      Program_toString = (\<lambda>pre fs. pre @ concat (map demo_toString fs)),
      sortOrder = v8_sort\<rparr>"

definition demo_heap :: heap where
  "demo_heap =
     \<lparr>arrays = [],
      funcs = [\<lparr>name = ''f'', body = ''a'', docString = ''d''\<rparr>,
               \<lparr>name = ''f'', body = ''b'', docString = ''d''\<rparr>],
      progs = [\<lparr>preface = ''p'', Program_functions = []\<rparr>]\<rparr>"

definition demo_scores :: ScoresPerTest where
  "demo_scores = [(''t1'', Num 1), (''t2'', Num 0)]"

definition demo_island :: Island where
  "demo_island =
     \<lparr>template = 0, nameOffunctionToEvolve = ''f'', functionsPerPrompt = Num 2,
      clusterSamplingTemperatureInit = Num 1, clusterSamplingTemperaturePeriod = Num 10,
      clusters = [], numPrograms = Num 0\<rparr>"

text \<open>The same score mapping registered twice, for the programs at addresses 0 and 1.\<close>

definition demo_twice :: "heap \<times> Island" where
  "demo_twice =
     registerProgram demo_ext 1 demo_scores
       (registerProgram demo_ext 0 demo_scores (demo_heap, demo_island))"

text \<open>An island whose initial temperature is 0, with period 2.\<close>

definition demo_flat :: Island where
  "demo_flat =
     demo_island\<lparr>clusterSamplingTemperatureInit := Num 0,
                 clusterSamplingTemperaturePeriod := Num 2\<rparr>"

text \<open>An island whose period is 0.\<close>

definition demo_period_zero :: Island where
  "demo_period_zero = demo_island\<lparr>clusterSamplingTemperaturePeriod := Num 0\<rparr>"

text \<open>The functions that the island's template holds, read through the heap.\<close>

definition templateFunctions :: "heap \<Rightarrow> Island \<Rightarrow> Function list" where
  "templateFunctions h island =
     map (\<lambda>r. funcs h ! r) (Program_functions (progs h ! template island))"

text \<open>
  Three registrations on an island that puts up to three functions into a prompt: the
  clusters have the scores 3, 1/2 and 3.
\<close>

definition demo_three :: "heap \<times> Island" where
  "demo_three =
     registerPrograms demo_ext
       [(0, [(''t1'', Num 3)]), (1, demo_scores), (0, [(''t1'', Num 3)])]
       (demo_heap, demo_island\<lparr>functionsPerPrompt := Num 3\<rparr>)"

text \<open>An island with initial temperature 1 and the period \<open>2\<^sup>5\<^sup>4\<close>.\<close>

definition demo_wide :: Island where
  "demo_wide = demo_island\<lparr>clusterSamplingTemperaturePeriod := Num (2 ^ 54)\<rparr>"

text \<open>An island whose initial temperature is infinite.\<close>

definition demo_infinite :: Island where
  "demo_infinite = demo_island\<lparr>clusterSamplingTemperatureInit := PInf\<rparr>"


section \<open>Rounding to doubles\<close>

lemma round_half_even_of_int: "round_half_even (of_int k) = k"
  by (simp add: round_half_even_def)

lemma round_half_even_bounds: "\<lfloor>r\<rfloor> \<le> round_half_even r \<and> round_half_even r \<le> \<lfloor>r\<rfloor> + 1"
  by (simp add: round_half_even_def Let_def)

lemma round_half_even_mono:
  assumes "a \<le> b"
  shows "round_half_even a \<le> round_half_even b"
proof (cases "\<lfloor>a\<rfloor> = \<lfloor>b\<rfloor>")
  case True
  have "a - of_int \<lfloor>a\<rfloor> \<le> b - of_int \<lfloor>b\<rfloor>"
    using assms True by simp
  then show ?thesis
    unfolding round_half_even_def Let_def True by auto
next
  case False
  then have "\<lfloor>a\<rfloor> + 1 \<le> \<lfloor>b\<rfloor>"
    using floor_mono [OF assms] by linarith
  then show ?thesis
    using round_half_even_bounds [of a] round_half_even_bounds [of b] by linarith
qed

lemma powr_two_int: "2 powr real_of_int e = 2 powi e"
  by (simp add: powr_real_of_int')

lemma powr_two_int_Suc: "2 powr (real_of_int e + 1) = 2 powi (e + 1)"
  using powr_two_int [of "e + 1"] by simp

lemma floor_log2_iff:
  "0 < x \<Longrightarrow> \<lfloor>log 2 x\<rfloor> = e \<longleftrightarrow> 2 powi e \<le> x \<and> x < 2 powi (e + 1)"
  using floor_log_eq_powr_iff [of x 2 e] by (simp add: powr_two_int powr_two_int_Suc)

lemma binade_bounds:
  assumes "0 < x"
  shows "2 powi \<lfloor>log 2 x\<rfloor> \<le> x" and "x < 2 powi (\<lfloor>log 2 x\<rfloor> + 1)"
  using floor_log2_iff [OF assms, of "\<lfloor>log 2 x\<rfloor>"] by simp_all

lemma floor_log2_eq:
  assumes "0 < x" and "2 powi e \<le> x" and "x < 2 powi (e + 1)"
  shows "\<lfloor>log 2 x\<rfloor> = e"
  using floor_log2_iff [OF assms(1), of e] assms(2,3) by simp

lemma binade_mono: "0 < x \<Longrightarrow> x \<le> y \<Longrightarrow> \<lfloor>log 2 x\<rfloor> \<le> \<lfloor>log 2 y\<rfloor>"
  by (intro floor_mono) simp

lemma quantum_mono: "0 < x \<Longrightarrow> x \<le> y \<Longrightarrow> quantum x \<le> quantum y"
  unfolding quantum_def using binade_mono [of x y] by linarith

lemma powi_ratio_int:
  assumes "b \<le> a"
  shows "(2::real) powi a / 2 powi b = of_int (2 ^ nat (a - b))"
proof -
  have "(2::real) powi a / 2 powi b = 2 powi (a - b)"
    by (simp add: power_int_diff)
  also have "\<dots> = 2 ^ nat (a - b)"
    using assms by (simp add: power_int_def)
  finally show ?thesis by simp
qed


lemma round_magnitude_nonneg: "0 \<le> x \<Longrightarrow> 0 \<le> round_magnitude x"
proof -
  assume "0 \<le> x"
  then have "0 \<le> x / 2 powi quantum x" by simp
  then have "round_half_even 0 \<le> round_half_even (x / 2 powi quantum x)"
    by (rule round_half_even_mono)
  then have "0 \<le> round_half_even (x / 2 powi quantum x)"
    using round_half_even_of_int [of 0] by simp
  then show ?thesis
    by (simp add: round_magnitude_def)
qed

text \<open>Rounding never leaves the binade: a power of two that bounds the argument bounds
  the result.\<close>

lemma round_magnitude_le_power:
  assumes "0 < x" and "x \<le> 2 powi k" and "quantum x \<le> k"
  shows "round_magnitude x \<le> 2 powi k"
proof -
  let ?q = "quantum x"
  have r: "(2::real) powi k / 2 powi ?q = of_int (2 ^ nat (k - ?q))"
    using assms(3) by (rule powi_ratio_int)
  have "x / 2 powi ?q \<le> 2 powi k / 2 powi ?q"
    using assms(2) by (simp add: divide_right_mono)
  then have "round_half_even (x / 2 powi ?q) \<le> round_half_even (of_int (2 ^ nat (k - ?q)))"
    unfolding r by (rule round_half_even_mono)
  then have "round_half_even (x / 2 powi ?q) \<le> 2 ^ nat (k - ?q)"
    by (simp only: round_half_even_of_int)
  then have i: "real_of_int (round_half_even (x / 2 powi ?q)) \<le> of_int (2 ^ nat (k - ?q))"
    by (simp only: of_int_le_iff)
  have "round_magnitude x = of_int (round_half_even (x / 2 powi ?q)) * 2 powi ?q"
    using assms(1) by (simp add: round_magnitude_def)
  also have "\<dots> \<le> of_int (2 ^ nat (k - ?q)) * 2 powi ?q"
    using i by (intro mult_right_mono) simp_all
  also have "\<dots> = 2 powi k / 2 powi ?q * 2 powi ?q"
    by (simp only: r)
  also have "\<dots> = 2 powi k"
    by simp
  finally show ?thesis .
qed

lemma round_magnitude_ge_power:
  assumes "0 < x" and "2 powi k \<le> x" and "quantum x \<le> k"
  shows "2 powi k \<le> round_magnitude x"
proof -
  let ?q = "quantum x"
  have r: "(2::real) powi k / 2 powi ?q = of_int (2 ^ nat (k - ?q))"
    using assms(3) by (rule powi_ratio_int)
  have "2 powi k / 2 powi ?q \<le> x / 2 powi ?q"
    using assms(2) by (simp add: divide_right_mono)
  then have "round_half_even (of_int (2 ^ nat (k - ?q))) \<le> round_half_even (x / 2 powi ?q)"
    unfolding r by (rule round_half_even_mono)
  then have "2 ^ nat (k - ?q) \<le> round_half_even (x / 2 powi ?q)"
    by (simp only: round_half_even_of_int)
  then have i: "real_of_int (2 ^ nat (k - ?q)) \<le> of_int (round_half_even (x / 2 powi ?q))"
    by (simp only: of_int_le_iff)
  have "(2::real) powi k = 2 powi k / 2 powi ?q * 2 powi ?q"
    by simp
  also have "\<dots> = of_int (2 ^ nat (k - ?q)) * 2 powi ?q"
    by (simp only: r)
  also have "\<dots> \<le> of_int (round_half_even (x / 2 powi ?q)) * 2 powi ?q"
    using i by (intro mult_right_mono) simp_all
  also have "\<dots> = round_magnitude x"
    using assms(1) by (simp add: round_magnitude_def)
  finally show ?thesis .
qed

lemma round_magnitude_mono:
  assumes "0 \<le> x" and "x \<le> y"
  shows "round_magnitude x \<le> round_magnitude y"
proof (cases "x = 0")
  case True
  then show ?thesis
    using round_magnitude_nonneg [of y] assms by (simp add: round_magnitude_def)
next
  case False
  then have x: "0 < x" and y: "0 < y"
    using assms by simp_all
  have q: "quantum x \<le> quantum y"
    using x assms(2) by (rule quantum_mono)
  show ?thesis
  proof (cases "quantum x = quantum y")
    case True
    have "x / 2 powi quantum y \<le> y / 2 powi quantum y"
      using assms(2) by (simp add: divide_right_mono)
    then have "round_half_even (x / 2 powi quantum y) \<le> round_half_even (y / 2 powi quantum y)"
      by (rule round_half_even_mono)
    then have "real_of_int (round_half_even (x / 2 powi quantum y)) * 2 powi quantum y \<le>
               of_int (round_half_even (y / 2 powi quantum y)) * 2 powi quantum y"
      by (intro mult_right_mono) simp_all
    then show ?thesis
      using x y by (simp add: round_magnitude_def True)
  next
    case False
    define ex where "ex = \<lfloor>log 2 x\<rfloor>"
    define ey where "ey = \<lfloor>log 2 y\<rfloor>"
    have lt: "quantum x < quantum y"
      using q False by simp
    then have qy: "quantum y = ey - 52" and exy: "ex + 1 \<le> ey"
      by (auto simp: quantum_def ex_def ey_def)
    have qx: "quantum x \<le> ey"
      using lt qy by simp
    have "x < 2 powi (ex + 1)"
      unfolding ex_def using x by (rule binade_bounds)
    also have "\<dots> \<le> 2 powi ey"
      using exy by (intro power_int_increasing) simp_all
    finally have "x \<le> 2 powi ey" by simp
    then have "round_magnitude x \<le> 2 powi ey"
      using x qx by (intro round_magnitude_le_power)
    moreover have "2 powi ey \<le> y"
      unfolding ey_def using y by (rule binade_bounds)
    then have "2 powi ey \<le> round_magnitude y"
      using y qy by (intro round_magnitude_ge_power) simp_all
    ultimately show ?thesis by simp
  qed
qed


lemma round_double_minus: "round_double (- x) = - round_double x"
  by (simp add: round_double_def round_magnitude_def)

lemma round_double_mono:
  assumes "x \<le> y"
  shows "round_double x \<le> round_double y"
proof -
  consider "0 \<le> x" | "x < 0" "0 \<le> y" | "y < 0"
    using assms by linarith
  then show ?thesis
  proof cases
    case 1
    then show ?thesis
      using assms round_magnitude_mono [of x y] by (simp add: round_double_def)
  next
    case 2
    then show ?thesis
      using round_magnitude_nonneg [of "- x"] round_magnitude_nonneg [of y]
      by (simp add: round_double_def)
  next
    case 3
    then show ?thesis
      using assms round_magnitude_mono [of "- y" "- x"] by (simp add: round_double_def)
  qed
qed

lemma round_magnitude_eval:
  assumes "0 < x" and "2 powi e \<le> x" and "x < 2 powi (e + 1)"
  shows "round_magnitude x =
           of_int (round_half_even (x / 2 powi max (e - 52) (- 1074))) *
           2 powi max (e - 52) (- 1074)"
  using assms(1) floor_log2_eq [OF assms]
  by (simp add: round_magnitude_def quantum_def least_exponent_def)

text \<open>A double is fixed by the rounding.\<close>

lemma round_magnitude_exact:
  assumes "x = of_int m * 2 powi q" and "0 < m" and "m < 2 ^ 53" and "least_exponent \<le> q"
  shows "round_magnitude x = x"
proof -
  have x: "0 < x"
    using assms(1,2) by simp
  have "x < 2 ^ 53 * 2 powi q"
    unfolding assms(1) using assms(3) by (intro mult_strict_right_mono) simp_all
  also have "\<dots> = 2 powi (53 + q)"
    by (simp add: power_int_add)
  finally have "x < 2 powi (53 + q)" .
  moreover have "2 powi \<lfloor>log 2 x\<rfloor> \<le> x"
    using x by (rule binade_bounds)
  ultimately have "(2::real) powi \<lfloor>log 2 x\<rfloor> < 2 powi (53 + q)"
    by simp
  then have "\<lfloor>log 2 x\<rfloor> < 53 + q"
    by (meson linorder_not_le one_le_numeral power_int_increasing)
  then have qq: "quantum x \<le> q"
    using assms(4) by (simp add: quantum_def)
  have "x / 2 powi quantum x = of_int m * (2 powi q / 2 powi quantum x)"
    by (simp add: assms(1))
  also have "\<dots> = of_int m * of_int (2 ^ nat (q - quantum x))"
    by (simp only: powi_ratio_int [OF qq])
  also have "\<dots> = of_int (m * 2 ^ nat (q - quantum x))"
    by simp
  finally have "round_half_even (x / 2 powi quantum x) = m * 2 ^ nat (q - quantum x)"
    by (simp only: round_half_even_of_int)
  then have "round_magnitude x = of_int (m * 2 ^ nat (q - quantum x)) * 2 powi quantum x"
    using x by (simp add: round_magnitude_def)
  also have "\<dots> = of_int m * (of_int (2 ^ nat (q - quantum x)) * 2 powi quantum x)"
    by simp
  also have "\<dots> = of_int m * (2 powi q / 2 powi quantum x * 2 powi quantum x)"
    by (simp only: powi_ratio_int [OF qq])
  also have "\<dots> = x"
    by (simp add: assms(1))
  finally show ?thesis .
qed

lemma round_double_of_int:
  assumes "\<bar>k\<bar> < 2 ^ 53"
  shows "round_double (of_int k) = of_int k"
proof -
  consider "k = 0" | "0 < k" | "k < 0" by linarith
  then show ?thesis
  proof cases
    case 1
    then show ?thesis by (simp add: round_double_def round_magnitude_def)
  next
    case 2
    then have "round_magnitude (of_int k) = of_int k"
      using assms by (intro round_magnitude_exact [of _ k 0]) (simp_all add: least_exponent_def)
    with 2 show ?thesis by (simp add: round_double_def)
  next
    case 3
    then have "round_magnitude (of_int (- k)) = of_int (- k)"
      using assms by (intro round_magnitude_exact [of _ "- k" 0]) (simp_all add: least_exponent_def)
    with 3 show ?thesis by (simp add: round_double_def)
  qed
qed






lemma round_double_eval:
  assumes "0 < x" and "2 powi e \<le> x" and "x < 2 powi (e + 1)"
  shows "round_double x =
           of_int (round_half_even (x / 2 powi max (e - 52) (- 1074))) *
           2 powi max (e - 52) (- 1074)"
  using assms(1) round_magnitude_eval [OF assms] by (simp add: round_double_def)

lemma round_double_zero: "round_double 0 = 0"
  by (simp add: round_double_def round_magnitude_def)

lemma round_double_one: "round_double 1 = 1"
  using round_double_of_int [of 1] by simp

lemma round_double_unit:
  assumes "0 \<le> x" and "x \<le> 1"
  shows "0 \<le> round_double x" and "round_double x \<le> 1"
  using round_double_mono [OF assms(1)] round_double_mono [OF assms(2)]
  by (simp_all add: round_double_zero round_double_one)

subsection \<open>The rounded operations\<close>

lemma fl_double: "double x \<Longrightarrow> fl x = Num x"
  by (simp add: fl_def double_def Let_def)

lemma double_of_int: "\<bar>k\<bar> < 2 ^ 53 \<Longrightarrow> double (of_int k)"
proof -
  assume k: "\<bar>k\<bar> < 2 ^ 53"
  then have "\<bar>real_of_int k\<bar> < 2 ^ 53"
    by (metis of_int_abs of_int_less_numeral_power_cancel_iff)
  also have "\<dots> < (2::real) ^ 1024"
    by (intro power_strict_increasing) simp_all
  finally show ?thesis
    using round_double_of_int [OF k] by (simp add: double_def)
qed

lemma double_zero: "double 0" and double_one: "double 1"
  using double_of_int [of 0] double_of_int [of 1] by simp_all

lemma double_numeral: "numeral n < (2::int) ^ 53 \<Longrightarrow> double (numeral n)"
  using double_of_int [of "numeral n"] by simp

lemma double_of_nat: "n < 2 ^ 53 \<Longrightarrow> double (real n)"
  using double_of_int [of "int n"] by simp

lemma fl_zero: "fl 0 = Num 0" and fl_one: "fl 1 = Num 1"
  by (simp_all add: fl_double double_zero double_one)

lemma fl_numeral: "numeral n < (2::int) ^ 53 \<Longrightarrow> fl (numeral n) = Num (numeral n)"
  by (simp add: fl_double double_numeral)

lemma double_minus: "double (- x) = double x"
  by (auto simp: double_def round_double_minus)

lemma js_neg_fl: "js_neg (fl x) = fl (- x)"
proof -
  have "2 ^ 1024 \<le> \<bar>round_double x\<bar> \<Longrightarrow> x \<noteq> 0"
    by (auto simp: round_double_zero)
  then show ?thesis
    by (auto simp: fl_def Let_def round_double_minus signed_inf_def)
qed

lemma fl_unit:
  assumes "0 \<le> x" and "x \<le> 1"
  shows "fl x = Num (round_double x)"
proof -
  have "\<bar>round_double x\<bar> \<le> 1"
    using round_double_unit [OF assms] by simp
  also have "(1::real) < 2 ^ 1024"
    by simp
  finally show ?thesis
    by (simp add: fl_def Let_def)
qed

text \<open>The rounding keeps the order, overflow included.\<close>

lemma fl_mono:
  assumes "x \<le> y"
  shows "num_le (fl x) (fl y)"
proof -
  have r: "round_double x \<le> round_double y"
    using assms by (rule round_double_mono)
  have px: "0 < x \<Longrightarrow> 0 \<le> round_double x" and nx: "\<not> 0 < x \<Longrightarrow> round_double x \<le> 0"
    using round_double_mono [of 0 x] round_double_mono [of x 0]
    by (simp_all add: round_double_zero)
  have py: "0 < y \<Longrightarrow> 0 \<le> round_double y" and ny: "\<not> 0 < y \<Longrightarrow> round_double y \<le> 0"
    using round_double_mono [of 0 y] round_double_mono [of y 0]
    by (simp_all add: round_double_zero)
  have big: "(0::real) < 2 ^ 1024"
    by simp
  show ?thesis
    using r px nx py ny big assms
    by (auto simp: fl_def Let_def signed_inf_def abs_real_def split: if_splits)
qed

text \<open>
  The sign of the comparator \<^verbatim>\<open>a - b\<close> on doubles is the sign of the exact difference:
  the difference of two different doubles does not round to zero.
\<close>

lemma js_sub_finite: "js_sub (Num a) (Num b) = fl (a - b)"
  by (simp add: js_sub_def)



section \<open>Registration: one map entry per call\<close>

lemma Map_set_fresh: "k \<notin> set (map fst m) \<Longrightarrow> Map_set m k v = m @ [(k, v)]"
  by (induction m) auto

lemma getSignature_fresh:
  "getSignature s h =
     (Suc (length (arrays h)), h\<lparr>arrays := arrays h @ [map snd s, map Number (map snd s)]\<rparr>)"
  by (simp add: getSignature_def Let_def)

text \<open>
  The array that \<^verbatim>\<open>getSignature\<close> returns is new, so it is no key of the map, whatever it
  holds: \<^verbatim>\<open>has\<close> is false and the first branch is taken.
\<close>

lemma registerProgram_fresh:
  assumes "keys_allocated h island"
  shows "registerProgram e p s (h, island) =
     (h\<lparr>arrays := arrays h @ [map snd s, map Number (map snd s)]\<rparr>,
      island\<lparr>clusters := clusters island @
                 [(Suc (length (arrays h)), new_Cluster (reduceScore e s) p)],
             numPrograms := js_add (numPrograms island) (Num 1)\<rparr>)"
proof -
  have "Suc (length (arrays h)) \<notin> set (map fst (clusters island))"
    using assms by (auto simp: keys_allocated_def Map_keys_def)
  then show ?thesis
    by (simp add: registerProgram_def getSignature_fresh Map_has_def Map_set_fresh)
qed

lemma registerProgram_keys_allocated:
  assumes "keys_allocated h island" and "registerProgram e p s (h, island) = (h', island')"
  shows "keys_allocated h' island'"
  using assms(2) unfolding registerProgram_fresh [OF assms(1)]
  using assms(1) by (fastforce simp: keys_allocated_def Map_keys_def)

lemma keys_allocated_empty: "clusters island = [] \<Longrightarrow> keys_allocated h island"
  by (simp add: keys_allocated_def Map_keys_def)

lemma registerPrograms_clusters:
  assumes "keys_allocated h island" and "registerPrograms e calls (h, island) = (h', island')"
  shows "map snd (clusters island') =
         map snd (clusters island) @
         map (\<lambda>(program, scoresPerTest). new_Cluster (reduceScore e scoresPerTest) program) calls"
  using assms
proof (induction calls arbitrary: h island)
  case Nil
  then show ?case by simp
next
  case (Cons call calls)
  obtain p s where call: "call = (p, s)" by (cases call)
  obtain h1 island1 where step: "registerProgram e p s (h, island) = (h1, island1)"
    by (cases "registerProgram e p s (h, island)")
  have wf1: "keys_allocated h1 island1"
    using registerProgram_keys_allocated [OF Cons.prems(1) step] .
  have rest: "registerPrograms e calls (h1, island1) = (h', island')"
    using Cons.prems(2) by (simp add: call step)
  have cl1: "clusters island1 =
      clusters island @ [(Suc (length (arrays h)), new_Cluster (reduceScore e s) p)]"
    using step unfolding registerProgram_fresh [OF Cons.prems(1)] by auto
  show ?case
    using Cons.IH [OF wf1 rest] by (simp add: cl1 call)
qed

text \<open>
  The counter follows the calls: it grows by one with each of them, exactly as long as it
  stays under \<open>2 ^ 53\<close>.
\<close>

lemma registerPrograms_numPrograms:
  assumes "registerPrograms e calls (h, island) = (h', island')"
    and "numPrograms island = Num (real a)"
    and "a + length calls < 2 ^ 53"
  shows "numPrograms island' = Num (real (a + length calls))"
  using assms
proof (induction calls arbitrary: h island a)
  case Nil
  then show ?case by simp
next
  case (Cons call calls)
  obtain p s where call: "call = (p, s)" by (cases call)
  obtain h1 island1 where step: "registerProgram e p s (h, island) = (h1, island1)"
    by (cases "registerProgram e p s (h, island)")
  have "double (real (Suc a))"
    using Cons.prems(3) by (intro double_of_nat) simp
  then have "fl (real a + 1) = Num (real (Suc a))"
    using fl_double [of "real (Suc a)"] by (simp add: add.commute)
  then have n1: "numPrograms island1 = Num (real (Suc a))"
    using step Cons.prems(2)
    by (auto simp: registerProgram_def Let_def split: prod.splits)
  have rest: "registerPrograms e calls (h1, island1) = (h', island')"
    using Cons.prems(1) by (simp add: call step)
  show ?case
    using Cons.IH [OF rest n1] Cons.prems(3) by simp
qed

text \<open>Small values that the examples compute with.\<close>

lemma double_half: "double (1 / 2)"
proof -
  have "round_magnitude (1 / 2) = 1 / 2"
    using round_magnitude_exact [of "1 / 2" 1 "- 1"] by (simp add: least_exponent_def)
  then show ?thesis
    by (simp add: double_def round_double_def)
qed

lemma fl_half: "fl (1 / 2) = Num (1 / 2)"
  by (simp add: fl_double double_half)

lemmas fl_simps = fl_zero fl_one fl_numeral fl_half

lemma demo_twice_eq:
  "demo_twice =
     (demo_heap\<lparr>arrays := [[Num 1, Num 0], [Num 1, Num 0], [Num 1, Num 0], [Num 1, Num 0]]\<rparr>,
      demo_island\<lparr>clusters := [(1, \<lparr>score = Num (1 / 2), programs = [0]\<rparr>),
                                (3, \<lparr>score = Num (1 / 2), programs = [1]\<rparr>)],
                  numPrograms := Num 2\<rparr>)"
  by (simp add: demo_twice_def registerProgram_def getSignature_def Map_has_def Map_get_def
      new_Cluster_def Number_def demo_heap_def demo_island_def demo_scores_def demo_ext_def Let_def
      fl_simps)

text \<open>
  Claim C9. Every call of \<^verbatim>\<open>registerProgram\<close> puts a new entry into the map of clusters:
  the signature that \<^verbatim>\<open>getSignature\<close> returns is a newly allocated array and the map
  compares keys by reference. After any sequence of calls the clusters are the ones
  there were before, followed by one single-member cluster for each call in turn; on an
  island that starts with no cluster the map has as many entries as there were calls,
  each with one member, whether or not score mappings repeat.
\<close>

theorem registerProgram_new_entry_every_call:
  assumes "keys_allocated h island"
    and "registerPrograms e calls (h, island) = (h', island')"
  shows "length (clusters island') = length (clusters island) + length calls \<and>
         map snd (clusters island') =
           map snd (clusters island) @
           map (\<lambda>(program, scoresPerTest). new_Cluster (reduceScore e scoresPerTest) program)
             calls \<and>
         (clusters island = [] \<longrightarrow>
            length (clusters island') = length calls \<and>
            map (\<lambda>c. length (programs c)) (map snd (clusters island')) =
              replicate (length calls) 1)"
proof -
  have m: "map snd (clusters island') =
           map snd (clusters island) @
           map (\<lambda>(program, scoresPerTest). new_Cluster (reduceScore e scoresPerTest) program)
             calls"
    using registerPrograms_clusters [OF assms] .
  have "length (map snd (clusters island')) = length (clusters island) + length calls"
    unfolding m by simp
  then have l: "length (clusters island') = length (clusters island) + length calls"
    by simp
  have "map (\<lambda>c. length (programs c))
          (map (\<lambda>(program, scoresPerTest). new_Cluster (reduceScore e scoresPerTest) program)
             calls) = replicate (length calls) 1"
    by (induction calls) (auto simp: new_Cluster_def)
  with m l show ?thesis by simp
qed

theorem registerProgram_new_entry_every_call_witness:
  "keys_allocated demo_heap demo_island \<and>
   registerPrograms demo_ext [(0, demo_scores), (1, demo_scores)] (demo_heap, demo_island) =
     (fst demo_twice, snd demo_twice) \<and>
   clusters demo_island = [] \<and>
   length (clusters (snd demo_twice)) = 2 \<and>
   map (\<lambda>c. length (programs c)) (map snd (clusters (snd demo_twice))) = [1, 1]"
proof -
  have e: "clusters demo_island = []"
    by (simp add: demo_island_def)
  have k: "keys_allocated demo_heap demo_island"
    using e by (rule keys_allocated_empty)
  have r: "registerPrograms demo_ext [(0, demo_scores), (1, demo_scores)]
             (demo_heap, demo_island) = (fst demo_twice, snd demo_twice)"
    by (simp add: demo_twice_def)
  show ?thesis
    using registerProgram_new_entry_every_call [OF k r] e k r
    by (simp add: numeral_2_eq_2 new_Cluster_def)
qed

text \<open>
  Claim C1 (the code departs from it). On a fresh island, registering the same
  \<^verbatim>\<open>scoresPerTest\<close> twice should give one cluster with two members. The code gives two
  clusters with one member each: the second call's signature is another array than the
  first call's, so the map, which compares keys by reference, does not find it, and the
  branch that appends to an existing cluster is never taken. \<^verbatim>\<open>numPrograms\<close> is 2.
\<close>

theorem same_scores_twice_two_clusters:
  "new_Island 0 ''f'' (Num 2) (Num 1) (Num 10) None None = Inr demo_island \<and>
   length (clusters (snd demo_twice)) = 2 \<and>
   map (\<lambda>c. programs c) (map snd (clusters (snd demo_twice))) = [[0], [1]] \<and>
   numPrograms (snd demo_twice) = Num 2"
  by (simp add: demo_twice_eq new_Island_def demo_island_def)

text \<open>
  Claim C2 (the code departs from it). After a sequence of registrations \<^verbatim>\<open>numPrograms\<close>
  is the sum of the member counts, and no two entries of the map should hold equal
  signature sequences. The first part holds; the second does not: after the same mapping
  is registered twice the two keys are different arrays (addresses 1 and 3) that hold the
  same sequence.
\<close>

theorem same_scores_twice_equal_signatures:
  "Map_keys (clusters (snd demo_twice)) = [1, 3] \<and>
   arrays (fst demo_twice) ! 1 = arrays (fst demo_twice) ! 3 \<and>
   map (\<lambda>k. arrays (fst demo_twice) ! k) (Map_keys (clusters (snd demo_twice))) =
     [[Num 1, Num 0], [Num 1, Num 0]] \<and>
   numPrograms (snd demo_twice) =
     Num (real (sum_list (map (\<lambda>c. length (programs c))
                            (map snd (clusters (snd demo_twice))))))"
  by (simp add: demo_twice_eq Map_keys_def)

section \<open>The temperature\<close>

lemma trunc_of_nat_div: "trunc (real n / real p) = int (n div p)"
  by (simp add: trunc_def floor_divide_of_nat_eq)

lemma real_mod_eq: "real n - real p * real (n div p) = real (n mod p)"
proof -
  have "real (p * (n div p) + n mod p) = real n"
    by (simp only: mult_div_mod_eq)
  then have "real p * real (n div p) + real (n mod p) = real n"
    by (simp only: of_nat_add of_nat_mult)
  then show ?thesis by linarith
qed

lemma js_rem_of_nat:
  "0 < p \<Longrightarrow> js_rem (Num (real n)) (Num (real p)) = Num (real (n mod p))"
  using real_mod_eq [of n p] by (simp add: trunc_of_nat_div)

lemma trunc_of_nat_div_neg: "trunc (- (real n / real q)) = - int (n div q)"
proof (cases "real n / real q = 0")
  case True
  then have "\<lfloor>real n / real q\<rfloor> = \<lfloor>0::real\<rfloor>" by (rule arg_cong)
  then have "int (n div q) = 0" by (simp only: floor_divide_of_nat_eq floor_zero)
  moreover have "trunc (- (real n / real q)) = 0"
    unfolding True by (simp add: trunc_def)
  ultimately show ?thesis by (simp only: minus_zero)
next
  case False
  have "0 \<le> real n / real q" by simp
  with False have "\<not> 0 \<le> - (real n / real q)" by linarith
  then have "trunc (- (real n / real q)) = \<lceil>- (real n / real q)\<rceil>"
    by (simp only: trunc_def if_False)
  also have "\<dots> = - \<lfloor>real n / real q\<rfloor>"
    by (simp add: ceiling_def)
  finally show ?thesis
    by (simp only: floor_divide_of_nat_eq)
qed

lemma js_rem_of_nat_neg:
  "0 < q \<Longrightarrow> js_rem (Num (real n)) (Num (- real q)) = Num (real (n mod q))"
  using real_mod_eq [of n q] by (simp add: trunc_of_nat_div_neg)

lemma js_mul_NaN_right: "js_mul a NaN = NaN"
  by (cases a) simp_all


lemma js_neg_neg: "js_neg (js_neg a) = a"
  by (cases a) simp_all

lemma js_div_finite: "b \<noteq> 0 \<Longrightarrow> js_div (Num a) (Num b) = fl (a / b)"
  by simp

lemma js_mul_one: "is_double t \<Longrightarrow> js_mul t (Num 1) = t"
  by (cases t) (simp_all add: fl_double signed_inf_def)

text \<open>Rounding keeps a value within integer bounds that are doubles.\<close>

lemma fl_finite:
  assumes "\<bar>x\<bar> \<le> of_int k" and "k < 2 ^ 53"
  shows "fl x = Num (round_double x)"
proof -
  have k0: "0 \<le> k"
    using assms(1) by linarith
  then have k: "\<bar>k\<bar> < 2 ^ 53" and k': "\<bar>- k\<bar> < 2 ^ 53"
    using assms(2) by simp_all
  have "round_double x \<le> round_double (of_int k)"
    using assms(1) by (intro round_double_mono) linarith
  then have u: "round_double x \<le> of_int k"
    by (simp only: round_double_of_int [OF k])
  have "round_double (of_int (- k)) \<le> round_double x"
    using assms(1) by (intro round_double_mono) simp
  then have "real_of_int (- k) \<le> round_double x"
    by (simp only: round_double_of_int [OF k'])
  then have l: "- of_int k \<le> round_double x"
    by simp
  have "\<bar>round_double x\<bar> \<le> real_of_int k"
    using u l by linarith
  also have "\<dots> < 2 ^ 53"
    using assms(2) by (metis of_int_less_numeral_power_cancel_iff)
  also have "\<dots> < (2::real) ^ 1024"
    by (intro power_strict_increasing) simp_all
  finally show ?thesis
    by (simp add: fl_def Let_def)
qed

text \<open>
  The factor \<^verbatim>\<open>1 - k / p\<close> for counts \<open>k \<le> p\<close>: two roundings, both within the unit
  interval, and the factor does not grow with \<open>k\<close>.
\<close>

lemma ratio_unit:
  assumes "0 < p" and "k \<le> p"
  shows "0 \<le> round_double (real k / real p)" and "round_double (real k / real p) \<le> 1"
proof -
  have "0 \<le> real k / real p" and "real k / real p \<le> 1"
    using assms by simp_all
  then show "0 \<le> round_double (real k / real p)" and "round_double (real k / real p) \<le> 1"
    by (rule round_double_unit)+
qed

lemma factor_unit:
  assumes "0 < p" and "k \<le> p"
  shows "0 \<le> round_double (1 - round_double (real k / real p))" and "round_double (1 - round_double (real k / real p)) \<le> 1"
proof -
  have "0 \<le> 1 - round_double (real k / real p)" and "1 - round_double (real k / real p) \<le> 1"
    using ratio_unit [OF assms] by simp_all
  then show "0 \<le> round_double (1 - round_double (real k / real p))" and "round_double (1 - round_double (real k / real p)) \<le> 1"
    by (rule round_double_unit)+
qed

lemma factor_antimono:
  assumes "0 < p" and "m \<le> n"
  shows "round_double (1 - round_double (real n / real p)) \<le> round_double (1 - round_double (real m / real p))"
proof -
  have "real m / real p \<le> real n / real p"
    using assms by (simp add: divide_right_mono)
  then have "round_double (real m / real p) \<le> round_double (real n / real p)"
    by (rule round_double_mono)
  then have "1 - round_double (real n / real p) \<le> 1 - round_double (real m / real p)"
    by simp
  then show ?thesis
    by (rule round_double_mono)
qed

lemma js_factor:
  assumes "0 < p" and "k \<le> p"
  shows "js_sub (Num 1) (js_div (Num (real k)) (Num (real p))) = Num (round_double (1 - round_double (real k / real p)))"
proof -
  have "real p \<noteq> 0"
    using assms(1) by simp
  then have "js_div (Num (real k)) (Num (real p)) = fl (real k / real p)"
    by (rule js_div_finite)
  also have "\<dots> = Num (round_double (real k / real p))"
    using assms by (intro fl_unit) simp_all
  finally have d: "js_div (Num (real k)) (Num (real p)) = Num (round_double (real k / real p))" .
  have "fl (1 - round_double (real k / real p)) = Num (round_double (1 - round_double (real k / real p)))"
    using ratio_unit [OF assms] by (intro fl_unit) simp_all
  then show ?thesis
    unfolding d js_sub_finite .
qed

lemma temperature_positive_period:
  assumes "clusterSamplingTemperaturePeriod island = Num (real p)" and "0 < p"
    and "numPrograms island = Num (real n)"
  shows "temperature island =
           Inr (js_mul (clusterSamplingTemperatureInit island)
                  (js_sub (Num 1) (js_div (Num (real (n mod p))) (Num (real p)))))"
  using assms by (simp add: temperature_def js_rem_of_nat del: js_rem.simps js_div.simps)

lemma temperature_finite:
  assumes "clusterSamplingTemperatureInit island = Num t0" and "double t0" and "0 \<le> t0"
    and "clusterSamplingTemperaturePeriod island = Num (real p)" and "0 < p"
    and "numPrograms island = Num (real n)"
  shows "temperature island = Inr (Num (round_double (t0 * round_double (1 - round_double (real (n mod p) / real p)))))"
    and "0 \<le> round_double (t0 * round_double (1 - round_double (real (n mod p) / real p)))"
    and "round_double (t0 * round_double (1 - round_double (real (n mod p) / real p))) \<le> t0"
proof -
  let ?x = "t0 * round_double (1 - round_double (real (n mod p) / real p))"
  have k: "n mod p \<le> p"
    using assms(5) by simp
  have x0: "0 \<le> ?x"
    using assms(3) factor_unit(1) [OF assms(5) k] by simp
  have x1: "?x \<le> t0"
    using assms(3) factor_unit(2) [OF assms(5) k] by (simp add: mult_left_le)
  have r: "round_double t0 = t0" and b: "\<bar>t0\<bar> < 2 ^ 1024"
    using assms(2) by (simp_all add: double_def)
  show r0: "0 \<le> round_double ?x"
    using round_double_mono [OF x0] by (simp add: round_double_zero)
  show r1: "round_double ?x \<le> t0"
    using round_double_mono [OF x1] by (simp only: r)
  have "\<bar>round_double ?x\<bar> < 2 ^ 1024"
    using r0 r1 b by linarith
  then have "fl ?x = Num (round_double ?x)"
    by (simp add: fl_def Let_def)
  then show "temperature island = Inr (Num (round_double ?x))"
    unfolding temperature_positive_period [OF assms(4,5,6)] assms(1) js_factor [OF assms(5) k]
    by simp
qed

lemma temperature_period_zero:
  assumes "clusterSamplingTemperaturePeriod island = Num 0"
  shows "temperature island = Inr NaN"
proof -
  have r: "js_rem (numPrograms island) (Num 0) = NaN"
    by (cases "numPrograms island") simp_all
  show ?thesis
    by (simp add: temperature_def assms r js_sub_def js_mul_NaN_right)
qed

lemma temperature_negative_period:
  assumes "clusterSamplingTemperatureInit island = Num t0"
    and "clusterSamplingTemperaturePeriod island = Num (- real q)" and "0 < q"
    and "numPrograms island = Num (real n)"
  shows "temperature island =
           Inr (js_mul (Num t0)
                  (js_add (Num 1) (js_div (Num (real (n mod q))) (Num (real q)))))"
proof -
  have "js_div (Num (real (n mod q))) (Num (- real q)) =
        js_neg (js_div (Num (real (n mod q))) (Num (real q)))"
    using assms(3) by (simp add: js_neg_fl)
  then show ?thesis
    using assms
    by (simp add: temperature_def js_rem_of_nat_neg js_sub_def js_neg_neg
        del: js_rem.simps js_div.simps)
qed

text \<open>The temperature below the period, step by step, for the examples.\<close>

lemma temperature_steps:
  assumes "clusterSamplingTemperaturePeriod island = Num p" and "numPrograms island = Num n"
    and "0 \<le> n" and "n < p"
    and "fl (n / p) = Num r" and "fl (1 - r) = Num s"
  shows "temperature island = Inr (js_mul (clusterSamplingTemperatureInit island) (Num s))"
proof -
  have "0 \<le> n / p" and "n / p < 1"
    using assms(3,4) by simp_all
  then have "\<lfloor>n / p\<rfloor> = 0"
    by linarith
  then have "trunc (n / p) = 0"
    using \<open>0 \<le> n / p\<close> by (simp add: trunc_def)
  then have r: "js_rem (Num n) (Num p) = Num n"
    using assms(3,4) by simp
  have p: "p \<noteq> 0"
    using assms(3,4) by simp
  show ?thesis
    unfolding temperature_def Let_def assms(1,2) r js_div_finite [OF p] assms(5) js_sub_finite
      assms(6) ..
qed

text \<open>The values of the examples.\<close>

lemma fl_tenth: "fl (1 / 10) = Num (3602879701896397 / 2 ^ 55)"
proof -
  have "fl (1 / 10) = Num (round_double (1 / 10))"
    by (rule fl_finite [of _ 1]) simp_all
  also have "round_double (1 / 10) = 3602879701896397 / 2 ^ 55"
    by (subst round_double_eval [where e = "- 4"]) (simp_all add: round_half_even_def)
  finally show ?thesis .
qed

lemma fl_nine_tenths: "fl (1 - 3602879701896397 / 2 ^ 55) = Num (8106479329266893 / 2 ^ 53)"
proof -
  have "fl (1 - 3602879701896397 / 2 ^ 55) = Num (round_double (1 - 3602879701896397 / 2 ^ 55))"
    by (rule fl_finite [of _ 1]) simp_all
  also have "round_double (1 - 3602879701896397 / 2 ^ 55) = 8106479329266893 / 2 ^ 53"
    by (subst round_double_eval [where e = "- 1"]) (simp_all add: round_half_even_def)
  finally show ?thesis .
qed

lemma fl_seven_tenths: "fl (7 / 10) = Num (3152519739159347 / 2 ^ 52)"
proof -
  have "fl (7 / 10) = Num (round_double (7 / 10))"
    by (rule fl_finite [of _ 1]) simp_all
  also have "round_double (7 / 10) = 3152519739159347 / 2 ^ 52"
    by (subst round_double_eval [where e = "- 1"]) (simp_all add: round_half_even_def)
  finally show ?thesis .
qed

lemma fl_three_tenths_up:
  "fl (1 - 3152519739159347 / 2 ^ 52) = Num (1351079888211149 / 2 ^ 52)"
proof -
  have "fl (1 - 3152519739159347 / 2 ^ 52) = Num (round_double (1 - 3152519739159347 / 2 ^ 52))"
    by (rule fl_finite [of _ 1]) simp_all
  also have "round_double (1 - 3152519739159347 / 2 ^ 52) = 1351079888211149 / 2 ^ 52"
    by (subst round_double_eval [where e = "- 2"]) (simp_all add: round_half_even_def)
  finally show ?thesis .
qed

lemma fl_three_tenths_up_exact:
  "fl (1351079888211149 / 2 ^ 52) = Num (1351079888211149 / 2 ^ 52)"
proof -
  have "fl (1351079888211149 / 2 ^ 52) = Num (round_double (1351079888211149 / 2 ^ 52))"
    by (rule fl_finite [of _ 1]) simp_all
  also have "round_double (1351079888211149 / 2 ^ 52) = 1351079888211149 / 2 ^ 52"
    by (subst round_double_eval [where e = "- 2"]) (simp_all add: round_half_even_def)
  finally show ?thesis .
qed

lemma fl_tiny: "fl (1 / 2 ^ 54) = Num (1 / 2 ^ 54)"
proof -
  have "fl (1 / 2 ^ 54) = Num (round_double (1 / 2 ^ 54))"
    by (rule fl_finite [of _ 1]) simp_all
  also have "round_double (1 / 2 ^ 54) = 1 / 2 ^ 54"
    by (subst round_double_eval [where e = "- 54"]) (simp_all add: round_half_even_def)
  finally show ?thesis .
qed

lemma fl_one_less_tiny: "fl (1 - 1 / 2 ^ 54) = Num 1"
proof -
  have "fl (1 - 1 / 2 ^ 54) = Num (round_double (1 - 1 / 2 ^ 54))"
    by (rule fl_finite [of _ 1]) simp_all
  also have "round_double (1 - 1 / 2 ^ 54) = 1"
    by (subst round_double_eval [where e = "- 1"]) (simp_all add: round_half_even_def)
  finally show ?thesis .
qed

lemma fl_three_halves: "fl (3 / 2) = Num (3 / 2)"
proof -
  have "fl (3 / 2) = Num (round_double (3 / 2))"
    by (rule fl_finite [of _ 2]) simp_all
  also have "round_double (3 / 2) = 3 / 2"
    by (subst round_double_eval [where e = 0]) (simp_all add: round_half_even_def)
  finally show ?thesis .
qed

text \<open>
  Claim C4 (as amended). With \<open>T0\<close> the initial temperature and an integer period
  \<open>P > 0\<close>, the temperature is \<open>T0 * (1 - (numPrograms mod P) / P)\<close> as the language
  computes it, in doubles, each operation rounded. It is exactly \<open>T0\<close> at
  \<open>numPrograms = 0\<close> and again at \<open>numPrograms = P\<close>, for every \<open>T0\<close> of the language:
  a double, an infinity or \<^verbatim>\<open>NaN\<close>. When \<open>T0\<close> is finite and not negative, the
  temperature stays between 0 and \<open>T0\<close> and does not increase as \<open>numPrograms\<close> goes
  through \<open>0, \<dots>, P - 1\<close>. It need not decrease strictly: see the counterexample below.
\<close>

theorem temperature_sawtooth:
  assumes "clusterSamplingTemperaturePeriod island = Num (real p)" and "0 < p"
    and "is_double (clusterSamplingTemperatureInit island)"
  shows "temperature (island\<lparr>numPrograms := Num (real n)\<rparr>) =
           Inr (js_mul (clusterSamplingTemperatureInit island)
                  (js_sub (Num 1) (js_div (Num (real (n mod p))) (Num (real p))))) \<and>
         temperature (island\<lparr>numPrograms := Num 0\<rparr>) =
           Inr (clusterSamplingTemperatureInit island) \<and>
         temperature (island\<lparr>numPrograms := Num (real p)\<rparr>) =
           Inr (clusterSamplingTemperatureInit island) \<and>
         (clusterSamplingTemperatureInit island = Num t0 \<longrightarrow> 0 \<le> t0 \<longrightarrow> m \<le> n \<longrightarrow> n < p \<longrightarrow>
            (\<exists>a b. temperature (island\<lparr>numPrograms := Num (real m)\<rparr>) = Inr (Num a) \<and>
                   temperature (island\<lparr>numPrograms := Num (real n)\<rparr>) = Inr (Num b) \<and>
                   0 \<le> b \<and> b \<le> a \<and> a \<le> t0))"
proof -
  let ?T = "clusterSamplingTemperatureInit island"
  have f: "temperature (island\<lparr>numPrograms := Num (real k)\<rparr>) =
           Inr (js_mul ?T (js_sub (Num 1) (js_div (Num (real (k mod p))) (Num (real p)))))" for k
    using temperature_positive_period [of "island\<lparr>numPrograms := Num (real k)\<rparr>" p k] assms(1,2)
    by simp
  have one: "js_sub (Num 1) (js_div (Num 0) (Num (real p))) = Num 1"
    using js_factor [of p 0] assms(2)
    by (simp add: round_double_zero round_double_one del: js_div.simps)
  have z: "temperature (island\<lparr>numPrograms := Num 0\<rparr>) = Inr ?T"
    using f [of 0] by (simp add: one js_mul_one [OF assms(3)] del: js_div.simps)
  have w: "temperature (island\<lparr>numPrograms := Num (real p)\<rparr>) = Inr ?T"
    using f [of p] by (simp add: one js_mul_one [OF assms(3)] del: js_div.simps)
  have d: "\<exists>a b. temperature (island\<lparr>numPrograms := Num (real m)\<rparr>) = Inr (Num a) \<and>
                 temperature (island\<lparr>numPrograms := Num (real n)\<rparr>) = Inr (Num b) \<and>
                 0 \<le> b \<and> b \<le> a \<and> a \<le> t0"
    if t: "?T = Num t0" and t0: "0 \<le> t0" and mn: "m \<le> n" and np: "n < p"
  proof -
    have dt: "double t0"
      using assms(3) t by simp
    have g: "temperature (island\<lparr>numPrograms := Num (real k)\<rparr>) =
               Inr (Num (round_double (t0 * round_double (1 - round_double (real (k mod p) / real p)))))"
      "0 \<le> round_double (t0 * round_double (1 - round_double (real (k mod p) / real p)))"
      "round_double (t0 * round_double (1 - round_double (real (k mod p) / real p))) \<le> t0" for k
      using temperature_finite [of "island\<lparr>numPrograms := Num (real k)\<rparr>" t0 p k]
        t dt t0 assms(1,2) by simp_all
    have "round_double (1 - round_double (real n / real p)) \<le> round_double (1 - round_double (real m / real p))"
      using assms(2) mn by (rule factor_antimono)
    then have "t0 * round_double (1 - round_double (real n / real p)) \<le> t0 * round_double (1 - round_double (real m / real p))"
      using t0 by (rule mult_left_mono)
    then have "round_double (t0 * round_double (1 - round_double (real n / real p))) \<le> round_double (t0 * round_double (1 - round_double (real m / real p)))"
      by (rule round_double_mono)
    then have "round_double (t0 * round_double (1 - round_double (real (n mod p) / real p))) \<le> round_double (t0 * round_double (1 - round_double (real (m mod p) / real p)))"
      using mn np by simp
    then show ?thesis
      using g [of m] g [of n] by blast
  qed
  from f z w d show ?thesis by blast
qed

theorem temperature_sawtooth_witness:
  "clusterSamplingTemperaturePeriod demo_island = Num (real 10) \<and>
   (0::nat) < 10 \<and>
   is_double (clusterSamplingTemperatureInit demo_island) \<and>
   clusterSamplingTemperatureInit demo_island = Num 1 \<and>
   (0::real) \<le> 1 \<and> (1::nat) \<le> 7 \<and> (7::nat) < 10 \<and>
   temperature (demo_island\<lparr>numPrograms := Num (real 7)\<rparr>) =
     Inr (Num (1351079888211149 / 2 ^ 52)) \<and>
   temperature (demo_island\<lparr>numPrograms := Num 0\<rparr>) = Inr (Num 1) \<and>
   temperature (demo_island\<lparr>numPrograms := Num (real 10)\<rparr>) = Inr (Num 1) \<and>
   (\<exists>a b. temperature (demo_island\<lparr>numPrograms := Num (real 1)\<rparr>) = Inr (Num a) \<and>
          temperature (demo_island\<lparr>numPrograms := Num (real 7)\<rparr>) = Inr (Num b) \<and>
          0 \<le> b \<and> b \<le> a \<and> a \<le> 1)"
proof -
  have t: "clusterSamplingTemperatureInit demo_island = Num 1"
    by (simp add: demo_island_def)
  have p: "clusterSamplingTemperaturePeriod demo_island = Num (real 10)"
    by (simp add: demo_island_def)
  have i: "is_double (clusterSamplingTemperatureInit demo_island)"
    by (simp add: t double_one)
  have z: "(0::nat) < 10 \<and> (0::real) \<le> 1 \<and> (1::nat) \<le> 7 \<and> (7::nat) < 10" by simp
  have z10: "(0::nat) < 10" by simp
  note a = temperature_sawtooth [OF p z10 i, of 7 1 1]
  have v7: "temperature (demo_island\<lparr>numPrograms := Num (real 7)\<rparr>) =
              Inr (Num (1351079888211149 / 2 ^ 52))"
  proof -
    have r: "fl (real 7 / real 10) = Num (3152519739159347 / 2 ^ 52)"
      using fl_seven_tenths by simp
    have m: "(7::nat) mod 10 = 7" and n: "real 10 \<noteq> 0"
      by simp_all
    show ?thesis
      unfolding a [THEN conjunct1] t m js_div_finite [OF n] r js_sub_finite fl_three_tenths_up
        js_mul.simps mult_1 fl_three_tenths_up_exact ..
  qed
  have v0: "temperature (demo_island\<lparr>numPrograms := Num 0\<rparr>) = Inr (Num 1)"
    using a [THEN conjunct2, THEN conjunct1] by (simp add: t)
  have v10: "temperature (demo_island\<lparr>numPrograms := Num (real 10)\<rparr>) = Inr (Num 1)"
    using a [THEN conjunct2, THEN conjunct2, THEN conjunct1] by (simp add: t)
  have d: "\<exists>a b. temperature (demo_island\<lparr>numPrograms := Num (real 1)\<rparr>) = Inr (Num a) \<and>
          temperature (demo_island\<lparr>numPrograms := Num (real 7)\<rparr>) = Inr (Num b) \<and>
          0 \<le> b \<and> b \<le> a \<and> a \<le> 1"
    by (rule a [THEN conjunct2, THEN conjunct2, THEN conjunct2, rule_format]) (simp_all add: t)
  from t p i z v7 v0 v10 d show ?thesis by (intro conjI) simp_all
qed

text \<open>
  The temperature is not strictly decreasing on \<open>[0, P)\<close> in these three islands. With
  \<open>T0 = 0\<close> and \<open>P = 2\<close> it is 0 at \<open>numPrograms = 0\<close> and at \<open>numPrograms = 1\<close>. With
  \<open>T0 = 1\<close> and \<open>P = 2\<^sup>5\<^sup>4\<close> it is 1 at both, since \<open>1 - 2\<^sup>-\<^sup>5\<^sup>4\<close> rounds to 1. With
  \<open>T0\<close> infinite and \<open>P = 10\<close> it is infinite at both.
\<close>

theorem temperature_zero_init_counterexample:
  "clusterSamplingTemperaturePeriod demo_flat = Num 2 \<and>
   temperature (demo_flat\<lparr>numPrograms := Num 0\<rparr>) = Inr (Num 0) \<and>
   temperature (demo_flat\<lparr>numPrograms := Num 1\<rparr>) = Inr (Num 0) \<and>
   clusterSamplingTemperatureInit demo_wide = Num 1 \<and>
   clusterSamplingTemperaturePeriod demo_wide = Num (2 ^ 54) \<and>
   temperature (demo_wide\<lparr>numPrograms := Num 0\<rparr>) = Inr (Num 1) \<and>
   temperature (demo_wide\<lparr>numPrograms := Num 1\<rparr>) = Inr (Num 1) \<and>
   clusterSamplingTemperatureInit demo_infinite = PInf \<and>
   clusterSamplingTemperaturePeriod demo_infinite = Num 10 \<and>
   temperature (demo_infinite\<lparr>numPrograms := Num 0\<rparr>) = Inr PInf \<and>
   temperature (demo_infinite\<lparr>numPrograms := Num 1\<rparr>) = Inr PInf"
proof -
  have pf: "clusterSamplingTemperaturePeriod demo_flat = Num 2"
    and tf: "clusterSamplingTemperatureInit demo_flat = Num 0"
    by (simp_all add: demo_flat_def demo_island_def)
  have f0: "temperature (demo_flat\<lparr>numPrograms := Num 0\<rparr>) = Inr (Num 0)"
    using temperature_steps [of "demo_flat\<lparr>numPrograms := Num 0\<rparr>" 2 0 0 1]
    by (simp add: pf tf fl_simps)
  have f1: "temperature (demo_flat\<lparr>numPrograms := Num 1\<rparr>) = Inr (Num 0)"
    using temperature_steps [of "demo_flat\<lparr>numPrograms := Num 1\<rparr>" 2 1 "1 / 2" "1 / 2"]
    by (simp add: pf tf fl_simps)
  have pw: "clusterSamplingTemperaturePeriod demo_wide = Num (2 ^ 54)"
    and tw: "clusterSamplingTemperatureInit demo_wide = Num 1"
    by (simp_all add: demo_wide_def demo_island_def)
  have "temperature (demo_wide\<lparr>numPrograms := Num 0\<rparr>) = Inr (js_mul (Num 1) (Num 1))"
    using temperature_steps [of "demo_wide\<lparr>numPrograms := Num 0\<rparr>" "2 ^ 54" 0 0 1]
    by (simp add: pw tw fl_simps del: js_mul.simps)
  then have w0: "temperature (demo_wide\<lparr>numPrograms := Num 0\<rparr>) = Inr (Num 1)"
    by (simp add: fl_simps)
  have "temperature (demo_wide\<lparr>numPrograms := Num 1\<rparr>) = Inr (js_mul (Num 1) (Num 1))"
    using temperature_steps [of "demo_wide\<lparr>numPrograms := Num 1\<rparr>" "2 ^ 54" 1 "1 / 2 ^ 54" 1,
        OF _ _ _ _ fl_tiny fl_one_less_tiny]
    by (simp add: pw tw)
  then have w1: "temperature (demo_wide\<lparr>numPrograms := Num 1\<rparr>) = Inr (Num 1)"
    by (simp add: fl_simps)
  have pi: "clusterSamplingTemperaturePeriod demo_infinite = Num 10"
    and ti: "clusterSamplingTemperatureInit demo_infinite = PInf"
    by (simp_all add: demo_infinite_def demo_island_def)
  have i0: "temperature (demo_infinite\<lparr>numPrograms := Num 0\<rparr>) = Inr PInf"
    using temperature_steps [of "demo_infinite\<lparr>numPrograms := Num 0\<rparr>" 10 0 0 1]
    by (simp add: pi ti fl_simps signed_inf_def)
  have "temperature (demo_infinite\<lparr>numPrograms := Num 1\<rparr>) =
          Inr (js_mul PInf (Num (8106479329266893 / 2 ^ 53)))"
    using temperature_steps [of "demo_infinite\<lparr>numPrograms := Num 1\<rparr>" 10 1
        "3602879701896397 / 2 ^ 55" "8106479329266893 / 2 ^ 53", OF _ _ _ _ fl_tenth fl_nine_tenths]
    by (simp add: pi ti)
  then have i1: "temperature (demo_infinite\<lparr>numPrograms := Num 1\<rparr>) = Inr PInf"
    by (simp add: signed_inf_def)
  from pf f0 f1 tw pw w0 w1 ti pi i0 i1 show ?thesis
    by (intro conjI)
qed

text \<open>
  Claim C8 (as amended). Constructing an Island raises nothing, whatever the period: the
  constructor stores the period as it is given. Reading the temperature raises nothing
  either and yields a number: \<^verbatim>\<open>NaN\<close> when the period is 0, and
  \<open>T0 * (1 + (numPrograms mod q) / q)\<close>, computed in doubles, when the period is the
  negative integer \<open>-q\<close> (finite \<open>T0\<close>, \<open>numPrograms\<close> a count).
\<close>

theorem nonpositive_period_raises_nothing:
  "\<exists>island. new_Island tmpl nm fpp t0 period cl np = Inr island \<and>
     clusterSamplingTemperaturePeriod island = period \<and>
     (\<exists>t. temperature island = Inr t) \<and>
     (period = Num 0 \<longrightarrow> temperature island = Inr NaN) \<and>
     (\<forall>q t n. period = Num (- real q) \<and> 0 < q \<and> t0 = Num t \<and> np = Some (Num (real n)) \<longrightarrow>
        temperature island =
          Inr (js_mul (Num t)
                 (js_add (Num 1) (js_div (Num (real (n mod q))) (Num (real q))))))"
proof -
  obtain island where i: "new_Island tmpl nm fpp t0 period cl np = Inr island"
    by (simp add: new_Island_def)
  have p: "clusterSamplingTemperaturePeriod island = period"
    and t: "clusterSamplingTemperatureInit island = t0"
    and n: "numPrograms island = (case np of None \<Rightarrow> Num 0 | Some n \<Rightarrow> n)"
    using i by (auto simp: new_Island_def)
  have "\<exists>t. temperature island = Inr t"
    by (simp add: temperature_def Let_def)
  moreover have "period = Num 0 \<longrightarrow> temperature island = Inr NaN"
    using p by (simp add: temperature_period_zero)
  moreover have "\<forall>q t n. period = Num (- real q) \<and> 0 < q \<and> t0 = Num t \<and> np = Some (Num (real n)) \<longrightarrow>
        temperature island =
          Inr (js_mul (Num t)
                 (js_add (Num 1) (js_div (Num (real (n mod q))) (Num (real q)))))"
  proof (intro allI impI)
    fix q t' n
    assume a: "period = Num (- real q) \<and> 0 < q \<and> t0 = Num t' \<and> np = Some (Num (real n))"
    show "temperature island =
            Inr (js_mul (Num t')
                   (js_add (Num 1) (js_div (Num (real (n mod q))) (Num (real q)))))"
      by (rule temperature_negative_period) (use a p t n in simp_all)
  qed
  ultimately show ?thesis
    using i p by blast
qed

theorem nonpositive_period_raises_nothing_witness:
  "(\<exists>island. new_Island 0 ''f'' (Num 2) (Num 1) (Num 0) None None = Inr island \<and>
      temperature island = Inr NaN) \<and>
   (0::nat) < 2 \<and>
   (\<exists>island. new_Island 0 ''f'' (Num 2) (Num 1) (Num (- real 2)) None (Some (Num (real 3)))
                = Inr island \<and>
      temperature island = Inr (Num (1 * (1 + real (3 mod 2) / real 2))))"
proof -
  have a: "\<exists>island. new_Island 0 ''f'' (Num 2) (Num 1) (Num 0) None None = Inr island \<and>
      temperature island = Inr NaN"
    using nonpositive_period_raises_nothing [of 0 "''f''" "Num 2" "Num 1" "Num 0" None None] by blast
  have z: "(0::nat) < 2" by simp
  obtain island where i: "new_Island 0 ''f'' (Num 2) (Num 1) (Num (- real 2)) None
      (Some (Num (real 3))) = Inr island"
    and n: "\<forall>q t n. Num (- real 2) = Num (- real q) \<and> 0 < q \<and> Num 1 = Num t \<and>
              Some (Num (real 3)) = Some (Num (real n)) \<longrightarrow>
              temperature island =
                Inr (js_mul (Num t)
                       (js_add (Num 1) (js_div (Num (real (n mod q))) (Num (real q)))))"
    using nonpositive_period_raises_nothing [of 0 "''f''" "Num 2" "Num 1" "Num (- real 2)" None "Some (Num (real 3))"]
    by blast
  have "temperature island =
          Inr (js_mul (Num 1) (js_add (Num 1) (js_div (Num (real (3 mod 2))) (Num (real 2)))))"
    using n z by blast
  then have "temperature island = Inr (Num (1 * (1 + real (3 mod 2) / real 2)))"
    by (simp add: fl_simps fl_three_halves)
  with i a z show ?thesis by blast
qed

text \<open>
  An Island with period 0 is constructed without error, and its temperature reads as
  \<^verbatim>\<open>NaN\<close>.
\<close>

theorem period_zero_counterexample:
  "new_Island 0 ''f'' (Num 2) (Num 1) (Num 0) None None = Inr demo_period_zero \<and>
   temperature demo_period_zero = Inr NaN"
  by (simp add: new_Island_def demo_period_zero_def demo_island_def temperature_def js_sub_def)

section \<open>Prompt generation\<close>

lemma versionFunctions_length:
  "length (fst (versionFunctions e b impls i (fs, vf))) = length fs + length impls"
  by (induction impls arbitrary: i fs vf) (simp_all add: Let_def)

lemma versionFunctions_refs:
  "snd (versionFunctions e b impls i (fs, vf)) =
     vf @ map (\<lambda>j. length fs + j) [0 ..< length impls]"
proof (induction impls arbitrary: i fs vf)
  case Nil
  then show ?case by simp
next
  case (Cons impl rest)
  show ?case
    by (simp add: Let_def Cons.IH map_upt_Suc del: upt_Suc)
qed

lemma versionFunctions_frame:
  "k < length fs \<Longrightarrow> k \<notin> set impls \<Longrightarrow>
   fst (versionFunctions e b impls i (fs, vf)) ! k = fs ! k"
proof (induction impls arbitrary: i fs vf)
  case Nil
  then show ?case by simp
next
  case (Cons impl rest)
  then show ?case
    by (simp add: Let_def nth_append)
qed

lemma versioned_name_differs: "getVersionedName b i \<noteq> b"
  by (simp add: getVersionedName_def)


lemma versionFunctions_copies:
  assumes "keeps_name_and_docString e"
    and "\<forall>r \<in> set impls. r < length fs"
    and "j < length impls"
  shows "name (fst (versionFunctions e b impls i (fs, vf)) ! (length fs + j)) =
           getVersionedName b (i + j) \<and>
         (0 < i + j \<longrightarrow>
            docString (fst (versionFunctions e b impls i (fs, vf)) ! (length fs + j)) =
              improvedDocString b (i + j - 1))"
  using assms(2,3)
proof (induction impls arbitrary: i fs vf j)
  case Nil
  then show ?case by simp
next
  case (Cons impl rest)
  define fs1 where "fs1 = fs[impl := (fs ! impl)\<lparr>name := getVersionedName b i\<rparr>]"
  define fs2 where "fs2 = (if 0 < i
      then fs1[impl := (fs1 ! impl)\<lparr>docString := improvedDocString b (i - 1)\<rparr>] else fs1)"
  define renamed where
    "renamed = renameFunctionCalls e (Function_toString e (fs2 ! impl)) b (name (fs2 ! impl))"
  have step: "versionFunctions e b (impl # rest) i (fs, vf) =
      versionFunctions e b rest (Suc i) (fs2 @ [renamed], vf @ [length fs2])"
    by (simp add: Let_def fs1_def fs2_def renamed_def)
  have len: "length fs2 = length fs"
    by (simp add: fs1_def fs2_def)
  have impl: "impl < length fs" and rest: "\<forall>r \<in> set rest. r < length fs"
    using Cons.prems(1) by simp_all
  have nm: "name (fs2 ! impl) = getVersionedName b i"
    using impl by (simp add: fs1_def fs2_def)
  have ds: "0 < i \<Longrightarrow> docString (fs2 ! impl) = improvedDocString b (i - 1)"
    using impl by (simp add: fs1_def fs2_def)
  have "b \<noteq> name (fs2 ! impl)"
    using versioned_name_differs [of b i] nm by simp
  then have keep: "name renamed = name (fs2 ! impl)" "docString renamed = docString (fs2 ! impl)"
    using assms(1) unfolding keeps_name_and_docString_def renamed_def by blast+
  show ?case
  proof (cases j)
    case 0
    have "length fs \<notin> set rest"
      using rest by auto
    then have "fst (versionFunctions e b rest (Suc i) (fs2 @ [renamed], vf @ [length fs2])) !
                 length fs = (fs2 @ [renamed]) ! length fs"
      by (intro versionFunctions_frame) (simp_all add: len)
    also have "\<dots> = renamed"
      by (simp add: nth_append len)
    finally have "fst (versionFunctions e b (impl # rest) i (fs, vf)) ! (length fs + j) = renamed"
      by (simp only: step 0 add_0_right)
    then show ?thesis
      using keep nm ds by (simp add: 0 del: versionFunctions.simps)
  next
    case (Suc j')
    have r': "\<forall>r \<in> set rest. r < length (fs2 @ [renamed])"
      using rest by (auto simp: len)
    have j': "j' < length rest"
      using Cons.prems(2) Suc by simp
    show ?thesis
      unfolding step
      using Cons.IH [OF r' j', of "Suc i" "vf @ [length fs2]"]
      by (simp add: Suc len del: versionFunctions.simps)
  qed
qed


lemma generatePrompt_empty: "generatePrompt e [] (h, island) = Inl RuntimeTypeError"
  by (simp add: generatePrompt_def)

lemma header_fields:
  "f\<lparr>name := a, body := b, docString := c\<rparr> = \<lparr>name = a, body = b, docString = c\<rparr>"
  by simp

lemma generatePrompt_result:
  assumes "impls \<noteq> []"
    and "functions_allocated h impls"
    and "template island < length (progs h)"
  shows "\<exists>txt h'.
     generatePrompt e impls (h, island) = Inr (txt, h') \<and>
     txt = renderProgram e h' (template island) \<and>
     arrays h' = arrays h \<and>
     length (funcs h') = length (funcs h) + length impls \<and>
     Program_functions (progs h' ! template island) =
       map (\<lambda>j. length (funcs h) + j) [0 ..< length impls] @ [last impls] \<and>
     funcs h' ! last impls =
       \<lparr>name = getVersionedName (nameOffunctionToEvolve island) (length impls),
        body = [],
        docString = improvedDocString (nameOffunctionToEvolve island) (length impls - 1)\<rparr> \<and>
     (\<forall>j < length impls.
        funcs h' ! (length (funcs h) + j) =
        fst (versionFunctions e (nameOffunctionToEvolve island) impls 0 (funcs h, [])) !
          (length (funcs h) + j))"
proof -
  define b where "b = nameOffunctionToEvolve island"
  define fs where "fs = fst (versionFunctions e b impls 0 (funcs h, []))"
  define vf where "vf = snd (versionFunctions e b impls 0 (funcs h, []))"
  define header where "header = last impls"
  define fs3 where "fs3 = fs[header :=
      \<lparr>name = getVersionedName b (length impls), body = [],
       docString = improvedDocString b (length impls - 1)\<rparr>]"
  define ps where "ps = (progs h)[template island :=
      (progs h ! template island)\<lparr>Program_functions := vf @ [header]\<rparr>]"
  define h' where "h' = h\<lparr>funcs := fs3, progs := ps\<rparr>"
  have hd: "impls ! (length impls - Suc 0) = header"
    using assms(1) by (simp add: header_def last_conv_nth)
  have len: "length fs = length (funcs h) + length impls"
    by (simp add: fs_def versionFunctions_length)
  have refs: "vf = map (\<lambda>j. length (funcs h) + j) [0 ..< length impls]"
    by (simp add: vf_def versionFunctions_refs)
  have old: "header < length (funcs h)"
    using assms(1,2) by (simp add: header_def functions_allocated_def)
  then have inside: "header < length fs"
    using len by simp
  have gp: "generatePrompt e impls (h, island) = Inr (renderProgram e h' (template island), h')"
    using assms(1) unfolding generatePrompt_def Let_def case_prod_beta
    by (simp add: hd fs_def [symmetric] vf_def [symmetric] b_def [symmetric] inside
        header_fields h'_def ps_def fs3_def)
  have cell: "fs3 ! header =
      \<lparr>name = getVersionedName b (length impls), body = [],
       docString = improvedDocString b (length impls - 1)\<rparr>"
    using old len by (simp add: fs3_def)
  have copies: "\<forall>j < length impls. fs3 ! (length (funcs h) + j) = fs ! (length (funcs h) + j)"
    using old by (simp add: fs3_def)
  have tmpl: "Program_functions (ps ! template island) = vf @ [header]"
    using assms(3) by (simp add: ps_def)
  show ?thesis
    using gp len refs cell copies tmpl
    by (simp add: h'_def fs3_def header_def b_def fs_def)
qed


lemma functionsPerPromptNow_no_clusters:
  "clusters island = [] \<Longrightarrow> functionsPerPromptNow island = 0"
  by (cases "functionsPerPrompt island")
     (simp_all add: functionsPerPromptNow_def signatures_def Map_keys_def)

lemma Array_sort_Nil: "Array_sort e cmp [] = []"
  by (simp add: Array_sort_def consistent_comparator_def stable_sort_def)

lemma getPrompt_no_clusters:
  assumes "clusters island = []"
  shows "getPrompt e (h, island) = Inl RuntimeTypeError"
proof -
  have "chosenSignatures e island probs = []" for probs
    by (simp add: chosenSignatures_def functionsPerPromptNow_no_clusters [OF assms])
  then show ?thesis
    by (simp add: getPrompt_def probabilities_def temperature_def Let_def
        sortedImplementations_def indicesSortedByScore_def Array_sort_Nil generatePrompt_empty)
qed

text \<open>
  Claim C3 (as amended). \<^verbatim>\<open>generatePrompt\<close> called with an empty list returns no
  prompt: it fails with the runtime \<^verbatim>\<open>TypeError\<close> of the assignment to the \<^verbatim>\<open>name\<close> of
  the header, which is \<^verbatim>\<open>undefined\<close>, the result of the unguarded read
  \<^verbatim>\<open>implementations[-1]\<close>. \<^verbatim>\<open>getPrompt\<close> on an island without clusters samples nothing
  and fails in the same way. The class throws no error of its own.
\<close>

theorem generatePrompt_empty_TypeError:
  "generatePrompt e [] (h, island) = Inl RuntimeTypeError \<and>
   (clusters island = [] \<longrightarrow> getPrompt e (h, island) = Inl RuntimeTypeError)"
  by (simp add: generatePrompt_empty getPrompt_no_clusters)

theorem generatePrompt_empty_TypeError_witness:
  "clusters demo_island = [] \<and> getPrompt demo_ext (demo_heap, demo_island) = Inl RuntimeTypeError"
proof -
  have c: "clusters demo_island = []" by (simp add: demo_island_def)
  show ?thesis
    using generatePrompt_empty_TypeError [of demo_ext demo_heap demo_island] c by simp
qed

text \<open>
  On the empty list the result is the runtime \<^verbatim>\<open>TypeError\<close>, not an error thrown by
  the program with the message "no programs available".
\<close>

theorem generatePrompt_empty_counterexample:
  "generatePrompt demo_ext [] (demo_heap, demo_island) = Inl RuntimeTypeError \<and>
   generatePrompt demo_ext [] (demo_heap, demo_island) \<noteq> Inl (Thrown ''no programs available'')"
  by (simp add: generatePrompt_def)

text \<open>
  Claim C7. For a non-empty list of \<open>n\<close> implementations \<^verbatim>\<open>generatePrompt\<close> leaves
  \<open>n + 1\<close> functions in the template: the \<open>i\<close>-th, for \<open>i < n\<close>, is named
  \<^verbatim>\<open><baseName>_v<i>\<close> and, when \<open>i > 0\<close>, its docstring refers to \<^verbatim>\<open><baseName>_v<i-1>\<close>;
  the last one, the header, is named \<^verbatim>\<open><baseName>_v<n>\<close>, has an empty body and a
  docstring that refers to \<^verbatim>\<open><baseName>_v<n-1>\<close>. The implementations may repeat. The
  first \<open>n\<close> functions are what the renaming utility returns for the rendered text, so
  the statement takes that utility to recover name and docstring.
\<close>

theorem generatePrompt_versions:
  assumes "impls \<noteq> []"
    and "functions_allocated h impls"
    and "template island < length (progs h)"
    and "keeps_name_and_docString e"
  shows "\<exists>txt h'.
     generatePrompt e impls (h, island) = Inr (txt, h') \<and>
     length (templateFunctions h' island) = length impls + 1 \<and>
     (\<forall>i < length impls.
        name (templateFunctions h' island ! i) =
          getVersionedName (nameOffunctionToEvolve island) i \<and>
        (0 < i \<longrightarrow>
           docString (templateFunctions h' island ! i) =
             improvedDocString (nameOffunctionToEvolve island) (i - 1))) \<and>
     name (templateFunctions h' island ! length impls) =
       getVersionedName (nameOffunctionToEvolve island) (length impls) \<and>
     body (templateFunctions h' island ! length impls) = [] \<and>
     docString (templateFunctions h' island ! length impls) =
       improvedDocString (nameOffunctionToEvolve island) (length impls - 1)"
proof -
  define b where "b = nameOffunctionToEvolve island"
  define n where "n = length impls"
  obtain prompt h' where gp: "generatePrompt e impls (h, island) = Inr (prompt, h')"
    and refs: "Program_functions (progs h' ! template island) =
       map (\<lambda>j. length (funcs h) + j) [0 ..< n] @ [last impls]"
    and cell: "funcs h' ! last impls =
       \<lparr>name = getVersionedName b n, body = [], docString = improvedDocString b (n - 1)\<rparr>"
    and copies: "\<forall>j < n. funcs h' ! (length (funcs h) + j) =
        fst (versionFunctions e b impls 0 (funcs h, [])) ! (length (funcs h) + j)"
    using generatePrompt_result [OF assms(1-3), of e] unfolding b_def n_def by blast
  have alloc: "\<forall>r \<in> set impls. r < length (funcs h)"
    using assms(2) by (simp add: functions_allocated_def)
  have len: "length (templateFunctions h' island) = n + 1"
    by (simp add: templateFunctions_def refs)
  have early: "templateFunctions h' island ! i =
      fst (versionFunctions e b impls 0 (funcs h, [])) ! (length (funcs h) + i)" if "i < n" for i
    using that copies by (simp add: templateFunctions_def refs nth_append)
  have final: "templateFunctions h' island ! n =
      \<lparr>name = getVersionedName b n, body = [], docString = improvedDocString b (n - 1)\<rparr>"
    using cell by (simp add: templateFunctions_def refs nth_append)
  have versions: "name (templateFunctions h' island ! i) = getVersionedName b i \<and>
      (0 < i \<longrightarrow> docString (templateFunctions h' island ! i) = improvedDocString b (i - 1))"
    if "i < n" for i
    using versionFunctions_copies [OF assms(4) alloc, where j = i and b = b and i = 0 and vf = "[]"]
      that
    by (simp add: early n_def)
  show ?thesis
    using gp len versions final unfolding b_def n_def by auto
qed

text \<open>
  Claim C10. \<^verbatim>\<open>generatePrompt\<close> on a non-empty list changes objects that outlive the
  call. The list of versioned functions is stored in the template object of the island
  itself (the object at the address \<^verbatim>\<open>this.template\<close>, not a clone of it), and its last
  element is the last input implementation: the same object, at its old address, not a
  copy. That object has been overwritten: its name is \<^verbatim>\<open><baseName>_v<n>\<close>, its body is
  empty and its docstring refers to \<^verbatim>\<open><baseName>_v<n-1>\<close>. Both are read from the heap that
  the call returns. (The elements before the last are the new objects that the renaming
  utility returned, at the addresses from the old end of the heap on.)
\<close>

theorem generatePrompt_mutates_in_place:
  assumes "impls \<noteq> []"
    and "functions_allocated h impls"
    and "template island < length (progs h)"
  shows "\<exists>txt h'.
     generatePrompt e impls (h, island) = Inr (txt, h') \<and>
     Program_functions (progs h' ! template island) =
       map (\<lambda>j. length (funcs h) + j) [0 ..< length impls] @ [last impls] \<and>
     length (Program_functions (progs h' ! template island)) = length impls + 1 \<and>
     last (Program_functions (progs h' ! template island)) = last impls \<and>
     last impls < length (funcs h) \<and>
     funcs h' ! last impls =
       \<lparr>name = getVersionedName (nameOffunctionToEvolve island) (length impls),
        body = [],
        docString = improvedDocString (nameOffunctionToEvolve island) (length impls - 1)\<rparr>"
proof -
  obtain prompt h' where gp: "generatePrompt e impls (h, island) = Inr (prompt, h')"
    and refs: "Program_functions (progs h' ! template island) =
       map (\<lambda>j. length (funcs h) + j) [0 ..< length impls] @ [last impls]"
    and cell: "funcs h' ! last impls =
       \<lparr>name = getVersionedName (nameOffunctionToEvolve island) (length impls), body = [],
        docString = improvedDocString (nameOffunctionToEvolve island) (length impls - 1)\<rparr>"
    using generatePrompt_result [OF assms, of e] by blast
  have "last impls < length (funcs h)"
    using assms(1,2) by (simp add: functions_allocated_def)
  then show ?thesis
    using gp cell by (simp add: refs)
qed


lemma undelimit_delimit: "undelimit (delimit s @ r) = (s, r)"
proof (induction s)
  case Nil
  show ?case by (cases r) simp_all
next
  case (Cons c cs)
  then show ?case by simp
qed

lemma demo_rename_toString: "demo_rename (demo_toString f) old new = f"
proof -
  have "undelimit (delimit (body f)) = (body f, [])"
    using undelimit_delimit [of "body f" "[]"] by simp
  then show ?thesis
    by (simp add: demo_rename_def demo_toString_def undelimit_delimit)
qed

lemma demo_ext_keeps: "keeps_name_and_docString demo_ext"
  by (simp add: keeps_name_and_docString_def demo_ext_def demo_rename_toString)

lemma demo_names:
  "getVersionedName ''f'' 0 = ''f_v0''"
  "getVersionedName ''f'' (Suc 0) = ''f_v1''"
  "getVersionedName ''f'' (Suc (Suc 0)) = ''f_v2''"
  "getVersionedName ''f'' (Suc (Suc (Suc 0))) = ''f_v3''"
  "getVersionedName ''f'' 1 = ''f_v1''"
  "getVersionedName ''f'' 2 = ''f_v2''"
  "getVersionedName ''f'' 3 = ''f_v3''"
  by code_simp+

lemma demo_allocated: "functions_allocated demo_heap [1, 0, 1]"
  by (simp add: functions_allocated_def demo_heap_def)

theorem generatePrompt_versions_witness:
  "[1, 0, 1] \<noteq> ([]::ref list) \<and> functions_allocated demo_heap [1, 0, 1] \<and>
   template demo_island < length (progs demo_heap) \<and> keeps_name_and_docString demo_ext \<and>
   (\<exists>prompt h'.
      generatePrompt demo_ext [1, 0, 1] (demo_heap, demo_island) = Inr (prompt, h') \<and>
      length (templateFunctions h' demo_island) = 4 \<and>
      name (templateFunctions h' demo_island ! 0) = ''f_v0'' \<and>
      name (templateFunctions h' demo_island ! 1) = ''f_v1'' \<and>
      docString (templateFunctions h' demo_island ! 1) = ''Improved version of f_v0.'' \<and>
      name (templateFunctions h' demo_island ! 2) = ''f_v2'' \<and>
      docString (templateFunctions h' demo_island ! 2) = ''Improved version of f_v1.'' \<and>
      name (templateFunctions h' demo_island ! 3) = ''f_v3'' \<and>
      body (templateFunctions h' demo_island ! 3) = [] \<and>
      docString (templateFunctions h' demo_island ! 3) = ''Improved version of f_v2.'')"
proof -
  have ne: "[1, 0, 1] \<noteq> ([]::ref list)" by simp
  have t: "template demo_island < length (progs demo_heap)"
    by (simp add: demo_island_def demo_heap_def)
  have b: "nameOffunctionToEvolve demo_island = ''f''"
    by (simp add: demo_island_def)
  obtain prompt h' where gp:
      "generatePrompt demo_ext [1, 0, 1] (demo_heap, demo_island) = Inr (prompt, h')"
    and len: "length (templateFunctions h' demo_island) = length [1::ref, 0, 1] + 1"
    and early: "\<forall>i < length [1::ref, 0, 1].
        name (templateFunctions h' demo_island ! i) = getVersionedName ''f'' i \<and>
        (0 < i \<longrightarrow> docString (templateFunctions h' demo_island ! i) =
             improvedDocString ''f'' (i - 1))"
    and final: "name (templateFunctions h' demo_island ! length [1::ref, 0, 1]) =
        getVersionedName ''f'' (length [1::ref, 0, 1])"
      "body (templateFunctions h' demo_island ! length [1::ref, 0, 1]) = []"
      "docString (templateFunctions h' demo_island ! length [1::ref, 0, 1]) =
        improvedDocString ''f'' (length [1::ref, 0, 1] - 1)"
    using generatePrompt_versions [OF ne demo_allocated t demo_ext_keeps] unfolding b by blast
  have "length (templateFunctions h' demo_island) = 4"
    using len by simp
  moreover have "name (templateFunctions h' demo_island ! 0) = ''f_v0''"
    using early [rule_format, of 0] by (simp add: demo_names)
  moreover have "name (templateFunctions h' demo_island ! 1) = ''f_v1'' \<and>
      docString (templateFunctions h' demo_island ! 1) = ''Improved version of f_v0.''"
    using early [rule_format, of 1] by (simp add: demo_names improvedDocString_def)
  moreover have "name (templateFunctions h' demo_island ! 2) = ''f_v2'' \<and>
      docString (templateFunctions h' demo_island ! 2) = ''Improved version of f_v1.''"
    using early [rule_format, of 2] by (simp add: demo_names improvedDocString_def)
  moreover have "name (templateFunctions h' demo_island ! 3) = ''f_v3'' \<and>
      body (templateFunctions h' demo_island ! 3) = [] \<and>
      docString (templateFunctions h' demo_island ! 3) = ''Improved version of f_v2.''"
    using final by (simp add: demo_names improvedDocString_def numeral_3_eq_3)
  ultimately show ?thesis
    using ne demo_allocated t demo_ext_keeps gp by blast
qed

theorem generatePrompt_mutates_in_place_witness:
  "[1, 0, 1] \<noteq> ([]::ref list) \<and> functions_allocated demo_heap [1, 0, 1] \<and>
   template demo_island < length (progs demo_heap) \<and>
   (\<exists>prompt h'.
      generatePrompt demo_ext [1, 0, 1] (demo_heap, demo_island) = Inr (prompt, h') \<and>
      length (Program_functions (progs h' ! template demo_island)) = 4 \<and>
      last (Program_functions (progs h' ! template demo_island)) = 1 \<and>
      funcs demo_heap ! 1 = \<lparr>name = ''f'', body = ''b'', docString = ''d''\<rparr> \<and>
      funcs h' ! 1 =
        \<lparr>name = ''f_v3'', body = [], docString = ''Improved version of f_v2.''\<rparr>)"
proof -
  have ne: "[1, 0, 1] \<noteq> ([]::ref list)" by simp
  have t: "template demo_island < length (progs demo_heap)"
    by (simp add: demo_island_def demo_heap_def)
  have b: "nameOffunctionToEvolve demo_island = ''f''"
    by (simp add: demo_island_def)
  have before: "funcs demo_heap ! 1 = \<lparr>name = ''f'', body = ''b'', docString = ''d''\<rparr>"
    by (simp add: demo_heap_def)
  obtain prompt h' where gp:
      "generatePrompt demo_ext [1, 0, 1] (demo_heap, demo_island) = Inr (prompt, h')"
    and len: "length (Program_functions (progs h' ! template demo_island)) =
        length [1::ref, 0, 1] + 1"
    and lst: "last (Program_functions (progs h' ! template demo_island)) = last [1::ref, 0, 1]"
    and cell: "funcs h' ! last [1::ref, 0, 1] =
        \<lparr>name = getVersionedName ''f'' (length [1::ref, 0, 1]), body = [],
         docString = improvedDocString ''f'' (length [1::ref, 0, 1] - 1)\<rparr>"
    using generatePrompt_mutates_in_place [OF ne demo_allocated t, of demo_ext] unfolding b by blast
  have "length (Program_functions (progs h' ! template demo_island)) = 4"
    using len by simp
  moreover have "last (Program_functions (progs h' ! template demo_island)) = 1"
    using lst by simp
  moreover have "funcs h' ! 1 =
      \<lparr>name = ''f_v3'', body = [], docString = ''Improved version of f_v2.''\<rparr>"
    using cell by (simp add: demo_names improvedDocString_def)
  ultimately show ?thesis
    using ne demo_allocated t gp before by blast
qed

section \<open>Sorting by score\<close>





lemma num_le_antisym: "num_le a b \<Longrightarrow> num_le b a \<Longrightarrow> a = b"
  by (cases a; cases b) auto

lemma num_le_refl: "finite_double a \<Longrightarrow> num_le a a"
  by (cases a) simp_all





lemma mset_insert_sorted: "mset (insert_sorted cmp x ys) = add_mset x (mset ys)"
  by (induction ys) auto

lemma mset_stable_sort: "mset (stable_sort cmp xs) = mset xs"
  by (induction xs) (simp_all add: stable_sort_def mset_insert_sorted)



text \<open>Whatever the comparator and the engine, the sorted array holds the same elements.\<close>

lemma mset_Array_sort: "mset (Array_sort e cmp xs) = mset xs"
  by (simp add: Array_sort_def Let_def mset_stable_sort)








lemma collectSamples_lengths:
  "length (fst (collectSamples e cl j chosen)) = length (snd (collectSamples e cl j chosen))"
  by (induction chosen arbitrary: j)
     (auto simp: Let_def case_prod_beta split: option.splits)

lemma length_indicesSortedByScore: "length (indicesSortedByScore e scs) = length scs"
proof -
  have "mset (indicesSortedByScore e scs) = mset [0 ..< length scs]"
    by (simp add: indicesSortedByScore_def mset_Array_sort)
  then have "length (indicesSortedByScore e scs) = length [0 ..< length scs]"
    by (rule mset_eq_length)
  then show ?thesis by simp
qed



lemma demo_three_eq:
  "demo_three =
     (demo_heap\<lparr>arrays := [[Num 3], [Num 3], [Num 1, Num 0], [Num 1, Num 0], [Num 3], [Num 3]]\<rparr>,
      demo_island\<lparr>functionsPerPrompt := Num 3,
                  clusters := [(1, \<lparr>score = Num 3, programs = [0]\<rparr>),
                               (3, \<lparr>score = Num (1 / 2), programs = [1]\<rparr>),
                               (5, \<lparr>score = Num 3, programs = [0]\<rparr>)],
                  numPrograms := Num 3\<rparr>)"
  by (simp add: demo_three_def registerProgram_def getSignature_def Map_has_def Map_get_def
      new_Cluster_def Number_def demo_heap_def demo_island_def demo_scores_def demo_ext_def Let_def
      fl_simps)













section \<open>The version number of the prompt\<close>

lemma ToLength_of_nat: "ToLength (Num (real m)) = m"
  by (simp add: trunc_def)

lemma functionsPerPromptNow_of_nat:
  assumes "functionsPerPrompt island = Num (real f)"
  shows "functionsPerPromptNow island = min f (length (signatures island))"
proof -
  have "Math_min (Num (real (length (signatures island)))) (Num (real f)) =
        Num (real (min f (length (signatures island))))"
    by (simp add: min.commute)
  then show ?thesis
    by (simp only: functionsPerPromptNow_def assms ToLength_of_nat)
qed

lemma collectSamples_all_found:
  assumes "\<forall>s \<in> set chosen. \<exists>k. s = Some k \<and> k \<in> set (map fst cl)"
  shows "length (fst (collectSamples e cl j chosen)) = length chosen"
  using assms
proof (induction chosen arbitrary: j)
  case Nil
  then show ?case by simp
next
  case (Cons s chosen)
  obtain k where k: "s = Some k" "k \<in> set (map fst cl)"
    using Cons.prems by auto
  have "map_of cl k \<noteq> None"
    using k(2) by (simp add: map_of_eq_None_iff)
  then obtain c where c: "Map_get cl k = Some c"
    by (auto simp: Map_get_def)
  show ?case
    using Cons.IH [of "Suc j"] Cons.prems
    by (simp add: k c Let_def case_prod_beta)
qed

lemma chosenSignatures_found:
  assumes "\<forall>i < functionsPerPromptNow island.
             getRandomWeightedIndex e i probs < length (signatures island)"
  shows "\<forall>s \<in> set (chosenSignatures e island probs).
           \<exists>k. s = Some k \<and> k \<in> set (map fst (clusters island))"
  using assms
  by (auto simp: chosenSignatures_def Let_def signatures_def Map_keys_def)

lemma length_chosenSignatures:
  "length (chosenSignatures e island probs) = functionsPerPromptNow island"
  by (simp add: chosenSignatures_def Let_def)

lemma length_sortedImplementations:
  "length (sortedImplementations e implementations scs) = length scs"
  by (simp add: sortedImplementations_def length_indicesSortedByScore)

lemma generatePrompt_returns:
  "impls \<noteq> [] \<Longrightarrow> \<exists>prompt h'. generatePrompt e impls (h, island) = Inr (prompt, h')"
  by (simp add: generatePrompt_def Let_def case_prod_beta)

lemma probabilities_returns: "\<exists>probs. probabilities e island = Inr probs"
  by (simp add: probabilities_def temperature_def Let_def)

text \<open>
  Claim C5 (as amended). Let \<open>k\<close> be the minimum of \<^verbatim>\<open>functionsPerPrompt\<close>, a natural
  number, and the number of known signatures. If \<open>k > 0\<close>, and every weighted draw is
  an index of the list of signatures, then \<^verbatim>\<open>getPrompt\<close> samples \<open>k\<close> implementations
  and returns \<open>k + 1\<close> as its second component, whatever \<^verbatim>\<open>numPrograms\<close> is. (For
  \<open>k = 0\<close> it returns nothing, see the counterexample below.)
\<close>

theorem getPrompt_version_number:
  assumes "functionsPerPrompt island = Num (real f)"
    and "k = min f (length (signatures island))"
    and "0 < k"
    and "\<forall>probs. probabilities e island = Inr probs \<longrightarrow>
           (\<forall>i < k. getRandomWeightedIndex e i probs < length (signatures island))"
  shows "\<exists>probs prompt h'.
           probabilities e island = Inr probs \<and>
           length (fst (collectSamples e (clusters island) 0
                          (chosenSignatures e island probs))) = k \<and>
           getPrompt e (h, island) = Inr ((prompt, k + 1), h')"
proof -
  obtain probs where p: "probabilities e island = Inr probs"
    using probabilities_returns by blast
  have now: "functionsPerPromptNow island = k"
    using functionsPerPromptNow_of_nat [OF assms(1)] assms(2) by simp
  define chosen where "chosen = chosenSignatures e island probs"
  define implementations where
    "implementations = fst (collectSamples e (clusters island) 0 chosen)"
  define scs where "scs = snd (collectSamples e (clusters island) 0 chosen)"
  have "\<forall>i < functionsPerPromptNow island.
          getRandomWeightedIndex e i probs < length (signatures island)"
    using assms(4) p now by blast
  then have "length implementations = length chosen"
    unfolding implementations_def chosen_def
    by (intro collectSamples_all_found chosenSignatures_found)
  then have li: "length implementations = k"
    by (simp add: chosen_def length_chosenSignatures now)
  then have ls: "length scs = k"
    using collectSamples_lengths [of e "clusters island" 0 chosen]
    by (simp add: implementations_def scs_def)
  define sorted where "sorted = sortedImplementations e implementations scs"
  have lsorted: "length sorted = k"
    by (simp add: sorted_def length_sortedImplementations ls)
  then have "sorted \<noteq> []"
    using assms(3) by auto
  then obtain prompt h' where g: "generatePrompt e sorted (h, island) = Inr (prompt, h')"
    using generatePrompt_returns by blast
  have "getPrompt e (h, island) = Inr ((prompt, k + 1), h')"
    by (simp add: getPrompt_def p case_prod_beta Let_def chosen_def [symmetric]
        implementations_def [symmetric] scs_def [symmetric] sorted_def [symmetric] g lsorted)
  then show ?thesis
    using p li by (auto simp: implementations_def chosen_def)
qed

theorem getPrompt_version_number_witness:
  "functionsPerPrompt (snd demo_three) = Num (real 3) \<and>
   (3::nat) = min 3 (length (signatures (snd demo_three))) \<and> (0::nat) < 3 \<and>
   probabilities demo_ext (snd demo_three) = Inr [fl (1 / 3), fl (1 / 3), fl (1 / 3)] \<and>
   map (\<lambda>i. getRandomWeightedIndex demo_ext i [fl (1 / 3), fl (1 / 3), fl (1 / 3)])
     [0, 1, 2] = [0, 1, 2] \<and>
   (\<exists>prompt h'. getPrompt demo_ext (fst demo_three, snd demo_three) = Inr ((prompt, 4), h'))"
proof -
  have f: "functionsPerPrompt (snd demo_three) = Num (real 3)"
    by (simp add: demo_three_eq)
  have n: "length (signatures (snd demo_three)) = 3"
    by (simp add: demo_three_eq signatures_def Map_keys_def)
  have k: "(3::nat) = min 3 (length (signatures (snd demo_three)))"
    by (simp add: n)
  have z: "(0::nat) < 3" by simp
  have d: "\<forall>probs. probabilities demo_ext (snd demo_three) = Inr probs \<longrightarrow>
      (\<forall>i < 3. getRandomWeightedIndex demo_ext i probs < length (signatures (snd demo_three)))"
    by (auto simp: n probabilities_def temperature_def Let_def demo_ext_def scores_def
        signatures_def Map_keys_def demo_three_eq)
  have "\<exists>prompt h'. getPrompt demo_ext (fst demo_three, snd demo_three) = Inr ((prompt, 4), h')"
    using getPrompt_version_number [OF f k z d, of "fst demo_three"] by auto
  moreover have "probabilities demo_ext (snd demo_three) =
      Inr [fl (1 / 3), fl (1 / 3), fl (1 / 3)]"
    by (simp add: probabilities_def temperature_def Let_def demo_ext_def scores_def
        signatures_def Map_keys_def demo_three_eq)
  moreover have "map (\<lambda>i. getRandomWeightedIndex demo_ext i [fl (1 / 3), fl (1 / 3), fl (1 / 3)])
     [0, 1, 2] = [0, 1, 2]"
    by (simp add: demo_ext_def)
  ultimately show ?thesis
    using f k z by blast
qed

text \<open>
  On a fresh island \<open>k = 0\<close>, and \<^verbatim>\<open>getPrompt\<close> fails with the \<^verbatim>\<open>TypeError\<close> of
  \<^verbatim>\<open>generatePrompt\<close> instead of returning the version number 1.
\<close>

theorem getPrompt_no_cluster_counterexample:
  "functionsPerPromptNow demo_island = 0 \<and>
   getPrompt demo_ext (demo_heap, demo_island) = Inl RuntimeTypeError"
proof -
  have c: "clusters demo_island = []" by (simp add: demo_island_def)
  show ?thesis
    using functionsPerPromptNow_no_clusters [OF c] getPrompt_no_clusters [OF c, of demo_ext demo_heap] by simp
qed

end
